theory Spec2Isabelle
  imports Main
begin

section \<open>Data model of cfg-sfdc-tokens.js\<close>

text \<open>
  A JavaScript string is modelled as a list of code units of type \<^typ>\<open>char\<close>
  (the code units 0 to 255). Offsets are positions in that list, as
  \<open>formula[position]\<close> and \<open>formula.length\<close> are in the source. Strings with code
  units above 255 are outside the model. Token offsets and error positions are
  JavaScript numbers that hold integers, modelled as \<^typ>\<open>int\<close>.
\<close>

datatype token_type =
    FUNCTION | FIELD | NESTED_FIELD | CUSTOM_FUNCTION | FORMULA_FIELD
  | OPERATOR | STRING | NUMBER | CONSTANT | PARENTHESIS | BRACKET | COMMA
  | WHITESPACE | IDENTIFIER | COMMENT | ERROR | DOT

record token =
  tok_type :: token_type
  tok_value :: string
  tok_start :: int
  tok_end :: int

text \<open>
  The argument of the exported functions is an arbitrary JavaScript value; only the
  distinction between strings and everything else is observed by the code
  (\<open>!formula || typeof formula !== "string"\<close>).
\<close>

datatype js_value =
    JSString string
  | JSUndefined
  | JSNull
  | JSBoolean bool
  | JSOther nat

definition SF_logical :: "string list" where
  "SF_logical = [''AND'', ''OR'', ''NOT'', ''IF'', ''CASE'', ''SWITCH'', ''XOR'', ''NAND'', ''NOR'']"

definition SF_text :: "string list" where
  "SF_text = [''TEXT'', ''LEFT'', ''RIGHT'', ''MID'', ''LEN'', ''FIND'', ''SUBSTITUTE'',
     ''TRIM'', ''UPPER'', ''LOWER'', ''PROPER'', ''BR'', ''HYPERLINK'', ''IMAGE'', ''VALUE'',
     ''CONTAINS'', ''BEGINS'', ''CONTAINS'', ''INCLUDES'', ''EXCLUDES'', ''REGEX'',
     ''REGEX_REPLACE'', ''SPLIT'', ''JOIN'', ''REPLACE'', ''SUBSTITUTE'', ''REPT'', ''CLEAN'',
     ''CODE'', ''CHAR'', ''UNICHAR'', ''UNICODE'']"

definition SF_math :: "string list" where
  "SF_math = [''ABS'', ''CEILING'', ''FLOOR'', ''ROUND'', ''MOD'', ''MAX'', ''MIN'', ''SQRT'',
     ''EXP'', ''LN'', ''LOG'', ''POWER'', ''RAND'', ''SIN'', ''COS'', ''TAN'', ''ASIN'', ''ACOS'',
     ''ATAN'', ''PI'', ''DEGREES'', ''RADIANS'', ''SIGN'', ''FACT'', ''GCD'', ''LCM'']"

definition SF_datetime :: "string list" where
  "SF_datetime = [''TODAY'', ''NOW'', ''DATE'', ''DATETIMEVALUE'', ''DATEVALUE'', ''YEAR'',
     ''MONTH'', ''DAY'', ''HOUR'', ''MINUTE'', ''SECOND'', ''WEEKDAY'', ''ADDMONTHS'',
     ''MONTHS_BETWEEN'', ''DAYS_BETWEEN'', ''HOURS_BETWEEN'', ''MINUTES_BETWEEN'',
     ''SECONDS_BETWEEN'', ''DATEADD'', ''DATEDIFF'', ''DATETIME_FORMAT'', ''TIMEVALUE'',
     ''TIMENOW'', ''TIMETONUM'', ''NUMTOTIME'', ''CALENDAR_MONTH'', ''CALENDAR_QUARTER'',
     ''CALENDAR_YEAR'', ''FISCAL_MONTH'', ''FISCAL_QUARTER'', ''FISCAL_YEAR'']"

definition SF_conversion :: "string list" where
  "SF_conversion = [''VALUE'', ''TEXT'', ''BLANKVALUE'', ''NULLVALUE'', ''CURRENCY'',
     ''NUMBER'', ''DOUBLE'', ''INT'', ''LONG'', ''ISNULL'', ''ISBLANK'', ''ISNUMBER'', ''ISTEXT'',
     ''ISDATE'', ''ISCHANGED'', ''PRIORVALUE'', ''ISNEW'', ''ISPICKVAL'']"

definition SF_advanced :: "string list" where
  "SF_advanced = [''CASE'', ''SWITCH'', ''CHOOSE'', ''COALESCE'', ''IFNULL'', ''NVL'',
     ''DECODE'', ''GREATEST'', ''LEAST'', ''RANK'', ''DENSE_RANK'', ''ROW_NUMBER'', ''LAG'',
     ''LEAD'', ''FIRST_VALUE'', ''LAST_VALUE'']"

definition SF_constants :: "string list" where
  "SF_constants = [''TRUE'', ''FALSE'', ''NULL'', ''BLANK'', ''EMPTY'']"

text \<open>Multi-character operators come before the single-character ones.\<close>

definition OPERATORS :: "string list" where
  "OPERATORS = [''<='', ''>='', ''<>'', ''=='', ''&&'', ''||'', ''='', ''<'', ''>'', ''+'',
     ''-'', ''*'', ''/'', ''&'']"

section \<open>Character classes of the regular expressions\<close>

text \<open>\<open>/\s/\<close> on the code units 0 to 255: TAB, LF, VT, FF, CR, space and U+00A0.\<close>

definition is_space :: "char \<Rightarrow> bool" where
  "is_space c = (of_char c \<in> {9, 10, 11, 12, 13, 32, 160 :: nat})"

text \<open>\<open>/\d/\<close>\<close>

definition is_digit :: "char \<Rightarrow> bool" where
  "is_digit c = (48 \<le> (of_char c :: nat) \<and> (of_char c :: nat) \<le> 57)"

text \<open>\<open>/[a-z]/\<close> and \<open>/[A-Z]/\<close>\<close>

definition is_lower :: "char \<Rightarrow> bool" where
  "is_lower c = (97 \<le> (of_char c :: nat) \<and> (of_char c :: nat) \<le> 122)"

definition is_upper :: "char \<Rightarrow> bool" where
  "is_upper c = (65 \<le> (of_char c :: nat) \<and> (of_char c :: nat) \<le> 90)"

text \<open>\<open>/[a-zA-Z_]/\<close> and \<open>/[a-zA-Z0-9_]/\<close>\<close>

definition is_ident_start :: "char \<Rightarrow> bool" where
  "is_ident_start c = (is_lower c \<or> is_upper c \<or> c = CHR ''_'')"

definition is_ident_char :: "char \<Rightarrow> bool" where
  "is_ident_char c = (is_lower c \<or> is_upper c \<or> is_digit c \<or> c = CHR ''_'')"

section \<open>tokenizeFormula\<close>

text \<open>
  \<open>while (position < length && P(formula[position])) { acc += formula[position]; position++; }\<close>
  This loop scans whitespace, numbers, identifiers and line comments.
\<close>

function consume_while :: "(char \<Rightarrow> bool) \<Rightarrow> string \<Rightarrow> nat \<Rightarrow> string \<Rightarrow> string \<times> nat" where
  "consume_while P formula position acc =
     (if position < length formula \<and> P (formula ! position)
      then consume_while P formula (position + 1) (acc @ [formula ! position])
      else (acc, position))"
  by pat_completeness auto
termination
  by (relation "measure (\<lambda>(P, formula, position, acc). length formula - position)") auto

text \<open>\<open>while (tempPosition < length && /\s/.test(formula[tempPosition])) tempPosition++;\<close>\<close>

function skip_space :: "string \<Rightarrow> nat \<Rightarrow> nat" where
  "skip_space formula tempPosition =
     (if tempPosition < length formula \<and> is_space (formula ! tempPosition)
      then skip_space formula (tempPosition + 1)
      else tempPosition)"
  by pat_completeness auto
termination
  by (relation "measure (\<lambda>(formula, tempPosition). length formula - tempPosition)") auto

text \<open>The body of a quoted string, up to the closing quote \<open>q\<close> or the end of input.\<close>

function scan_string :: "char \<Rightarrow> string \<Rightarrow> nat \<Rightarrow> string \<Rightarrow> string \<times> nat" where
  "scan_string q formula position acc =
     (if position < length formula \<and> formula ! position \<noteq> q
      then (if formula ! position = CHR 0x5C \<and> position + 1 < length formula
            then scan_string q formula (position + 2)
                   (acc @ [formula ! position, formula ! (position + 1)])
            else scan_string q formula (position + 1) (acc @ [formula ! position]))
      else (acc, position))"
  by pat_completeness auto
termination
  by (relation "measure (\<lambda>(q, formula, position, acc). length formula - position)") auto

text \<open>The body of a block comment, up to \<open>*/\<close> or the end of input.\<close>

function scan_block_comment :: "string \<Rightarrow> nat \<Rightarrow> string \<Rightarrow> string \<times> nat" where
  "scan_block_comment formula position acc =
     (if position < length formula \<and>
         \<not> (formula ! position = CHR ''*'' \<and> position + 1 < length formula \<and>
            formula ! (position + 1) = CHR ''/'')
      then scan_block_comment formula (position + 1) (acc @ [formula ! position])
      else (acc, position))"
  by pat_completeness auto
termination
  by (relation "measure (\<lambda>(formula, position, acc). length formula - position)") auto

text \<open>
  The look-ahead extraction of one bracket-balanced field:
  \<open>while (tempPosition < length && bracketCount >= 0) { ...; if (bracketCount === 0) break; }\<close>
\<close>

function extract_field :: "string \<Rightarrow> nat \<Rightarrow> int \<Rightarrow> string \<Rightarrow> string \<times> nat" where
  "extract_field formula tempPosition bracketCount acc =
     (if tempPosition < length formula \<and> bracketCount \<ge> 0
      then (let currentChar = formula ! tempPosition;
                bracketCount' = (if currentChar = CHR ''['' then bracketCount + 1
                                 else if currentChar = CHR '']'' then bracketCount - 1
                                 else bracketCount)
            in if bracketCount' = 0 then (acc @ [currentChar], tempPosition + 1)
               else extract_field formula (tempPosition + 1) bracketCount' (acc @ [currentChar]))
      else (acc, tempPosition))"
  by pat_completeness auto
termination
  by (relation "measure (\<lambda>(formula, tempPosition, bracketCount, acc). length formula - tempPosition)")
     auto

text \<open>
  The regular field reference:
  \<open>while (position < length && bracketCount > 0) { ...; field += currentChar; position++; }\<close>
\<close>

function scan_field :: "string \<Rightarrow> nat \<Rightarrow> int \<Rightarrow> string \<Rightarrow> string \<times> nat" where
  "scan_field formula position bracketCount acc =
     (if position < length formula \<and> bracketCount > 0
      then (let currentChar = formula ! position;
                bracketCount' = (if currentChar = CHR ''['' then bracketCount + 1
                                 else if currentChar = CHR '']'' then bracketCount - 1
                                 else bracketCount)
            in scan_field formula (position + 1) bracketCount' (acc @ [currentChar]))
      else (acc, position))"
  by pat_completeness auto
termination
  by (relation "measure (\<lambda>(formula, position, bracketCount, acc). length formula - position)") auto

declare consume_while.simps [simp del] skip_space.simps [simp del] scan_string.simps [simp del]
  scan_block_comment.simps [simp del] extract_field.simps [simp del] scan_field.simps [simp del]

lemma consume_while_span:
  "consume_while P f p acc = (acc', p') \<Longrightarrow>
     p \<le> p' \<and> (p \<le> length f \<longrightarrow> p' \<le> length f) \<and> length acc' + p = length acc + p'"
proof (induction P f p acc rule: consume_while.induct)
  case (1 P f p acc)
  show ?case
  proof (cases "p < length f \<and> P (f ! p)")
    case True
    with "1.prems" have "consume_while P f (p + 1) (acc @ [f ! p]) = (acc', p')"
      by (simp add: consume_while.simps [of P f p])
    from "1.IH" [OF True this] True show ?thesis by simp
  next
    case False
    with "1.prems" show ?thesis by (simp add: consume_while.simps [of P f p] split: if_splits)
  qed
qed

lemma consume_while_first:
  "p < length f \<Longrightarrow> P (f ! p) \<Longrightarrow> consume_while P f p acc = (acc', p') \<Longrightarrow> p < p'"
  using consume_while_span [of P f "p + 1" "acc @ [f ! p]" acc' p']
  by (simp add: consume_while.simps [of P f p])

lemma skip_space_span:
  "p \<le> skip_space f p \<and> (p \<le> length f \<longrightarrow> skip_space f p \<le> length f)"
proof (induction f p rule: skip_space.induct)
  case (1 f p)
  show ?case
  proof (cases "p < length f \<and> is_space (f ! p)")
    case True
    from "1.IH" [OF True] True show ?thesis by (simp add: skip_space.simps [of f p])
  next
    case False
    then show ?thesis by (auto simp add: skip_space.simps [of f p])
  qed
qed

lemma skip_space_stop:
  "skip_space f p < length f \<Longrightarrow> \<not> is_space (f ! skip_space f p)"
proof (induction f p rule: skip_space.induct)
  case (1 f p)
  show ?case
  proof (cases "p < length f \<and> is_space (f ! p)")
    case True
    with "1.prems" have "skip_space f (p + 1) < length f" by (simp add: skip_space.simps [of f p])
    from "1.IH" [OF True this] True show ?thesis by (simp add: skip_space.simps [of f p])
  next
    case False
    with "1.prems" show ?thesis by (auto simp add: skip_space.simps [of f p])
  qed
qed

lemma scan_string_span:
  "scan_string q f p acc = (acc', p') \<Longrightarrow>
     p \<le> p' \<and> (p \<le> length f \<longrightarrow> p' \<le> length f) \<and> length acc' + p = length acc + p'"
proof (induction q f p acc rule: scan_string.induct)
  case (1 q f p acc)
  show ?case
  proof (cases "p < length f \<and> f ! p \<noteq> q")
    case True
    show ?thesis
    proof (cases "f ! p = CHR 0x5C \<and> p + 1 < length f")
      case esc: True
      with True "1.prems"
      have "scan_string q f (p + 2) (acc @ [f ! p, f ! (p + 1)]) = (acc', p')"
        by (simp add: scan_string.simps [of q f p])
      from "1.IH"(1) [OF True esc this] esc show ?thesis by simp
    next
      case noesc: False
      with True "1.prems" have "scan_string q f (p + 1) (acc @ [f ! p]) = (acc', p')"
        by (auto simp add: scan_string.simps [of q f p])
      from "1.IH"(2) [OF True noesc this] True show ?thesis by simp
    qed
  next
    case False
    with "1.prems" show ?thesis by (simp add: scan_string.simps [of q f p] split: if_splits)
  qed
qed

lemma scan_block_comment_span:
  "scan_block_comment f p acc = (acc', p') \<Longrightarrow>
     p \<le> p' \<and> (p \<le> length f \<longrightarrow> p' \<le> length f) \<and> length acc' + p = length acc + p' \<and>
     (p' < length f \<longrightarrow> p' + 1 < length f)"
proof (induction f p acc rule: scan_block_comment.induct)
  case (1 f p acc)
  let ?c = "p < length f \<and> \<not> (f ! p = CHR ''*'' \<and> p + 1 < length f \<and> f ! (p + 1) = CHR ''/'')"
  show ?case
  proof (cases ?c)
    case True
    with "1.prems" have "scan_block_comment f (p + 1) (acc @ [f ! p]) = (acc', p')"
      by (simp add: scan_block_comment.simps [of f p])
    from "1.IH" [OF True this] True show ?thesis by simp
  next
    case False
    with "1.prems" have "acc' = acc" "p' = p"
      by (simp_all add: scan_block_comment.simps [of f p] split: if_splits)
    with False show ?thesis by auto
  qed
qed

lemma extract_field_span:
  "extract_field f p cnt acc = (acc', p') \<Longrightarrow>
     p \<le> p' \<and> (p \<le> length f \<longrightarrow> p' \<le> length f) \<and> length acc' + p = length acc + p' \<and>
     (p < length f \<and> 0 \<le> cnt \<longrightarrow> p < p')"
proof (induction f p cnt acc rule: extract_field.induct)
  case (1 f p cnt acc)
  define cnt' where "cnt' = (if f ! p = CHR ''['' then cnt + 1
                              else if f ! p = CHR '']'' then cnt - 1 else cnt)"
  show ?case
  proof (cases "p < length f \<and> 0 \<le> cnt")
    case True
    show ?thesis
    proof (cases "cnt' = 0")
      case z: True
      with True "1.prems" have "acc' = acc @ [f ! p]" "p' = p + 1"
        by (simp_all add: extract_field.simps [of f p] cnt'_def Let_def split: if_splits)
      with True show ?thesis by simp
    next
      case nz: False
      with True "1.prems" have "extract_field f (p + 1) cnt' (acc @ [f ! p]) = (acc', p')"
        by (simp add: extract_field.simps [of f p] cnt'_def Let_def split: if_splits)
      from "1.IH" [OF True refl _ _ this] nz True show ?thesis by (simp add: cnt'_def)
    qed
  next
    case False
    with "1.prems" show ?thesis by (simp add: extract_field.simps [of f p] split: if_splits)
  qed
qed

lemma scan_field_span:
  "scan_field f p cnt acc = (acc', p') \<Longrightarrow>
     p \<le> p' \<and> (p \<le> length f \<longrightarrow> p' \<le> length f) \<and> length acc' + p = length acc + p'"
proof (induction f p cnt acc rule: scan_field.induct)
  case (1 f p cnt acc)
  define cnt' where "cnt' = (if f ! p = CHR ''['' then cnt + 1
                              else if f ! p = CHR '']'' then cnt - 1 else cnt)"
  show ?case
  proof (cases "p < length f \<and> 0 < cnt")
    case True
    with "1.prems" have "scan_field f (p + 1) cnt' (acc @ [f ! p]) = (acc', p')"
      by (simp add: scan_field.simps [of f p] cnt'_def Let_def split: if_splits)
    from "1.IH" [OF True refl _ this] True show ?thesis by (simp add: cnt'_def)
  next
    case False
    with "1.prems" show ?thesis by (simp add: scan_field.simps [of f p] split: if_splits)
  qed
qed

text \<open>
  The extension loop of a bracketed field reference: after the first field, repeatedly
  skip whitespace, a dot, whitespace, and join the next bracketed field. It returns
  \<open>fullNestedField\<close>, the final \<open>tempPosition\<close> and \<open>isNestedPattern\<close>.
\<close>

function nested_loop :: "string \<Rightarrow> nat \<Rightarrow> string \<Rightarrow> bool \<Rightarrow> string \<times> nat \<times> bool" where
  "nested_loop formula tempPosition fullNestedField isNestedPattern =
     (if tempPosition < length formula
      then (let tp1 = skip_space formula tempPosition
            in if tp1 < length formula \<and> formula ! tp1 = CHR ''.''
               then (let tp2 = skip_space formula (tp1 + 1)
                     in if tp2 < length formula \<and> formula ! tp2 = CHR ''[''
                        then (case extract_field formula tp2 0 [] of
                                (nextField, tp3) \<Rightarrow>
                                  nested_loop formula tp3 (fullNestedField @ ''.'' @ nextField) True)
                        else (fullNestedField, tp2, isNestedPattern))
               else (fullNestedField, tp1, isNestedPattern))
      else (fullNestedField, tempPosition, isNestedPattern))"
  by pat_completeness auto
termination
proof (relation "measure (\<lambda>(formula, tempPosition, full, nested). length formula - tempPosition)",
       goal_cases)
  case 1
  show ?case by simp
next
  case (2 formula tempPosition fullNestedField isNestedPattern tp1 tp2 nextField tp3)
  then have e: "extract_field formula tp2 0 [] = (nextField, tp3)" by simp
  from 2 have lt: "tp2 < length formula" by simp
  from extract_field_span [OF e] lt have "tp2 < tp3" by simp
  moreover from 2 skip_space_span [of tempPosition formula] have "tempPosition \<le> tp1" by simp
  moreover from 2 skip_space_span [of "tp1 + 1" formula] have "tp1 + 1 \<le> tp2" by simp
  ultimately have "tempPosition < tp3" by simp
  moreover from 2 have "tempPosition < length formula" by simp
  ultimately show ?case by simp
qed

declare nested_loop.simps [simp del]

text \<open>Rule 1: a maximal run of whitespace.\<close>

definition whitespace_token :: "string \<Rightarrow> nat \<Rightarrow> token \<times> nat" where
  "whitespace_token formula position =
     (case consume_while is_space formula position [] of
        (whitespace, position') \<Rightarrow>
          (\<lparr>tok_type = WHITESPACE, tok_value = whitespace,
            tok_start = int position' - int (length whitespace), tok_end = int position'\<rparr>,
           position'))"

text \<open>Rule 2: a string in double quotes (\<open>q = CHR 0x22\<close>) or single quotes (\<open>q = CHR 0x27\<close>).\<close>

definition string_token :: "char \<Rightarrow> string \<Rightarrow> nat \<Rightarrow> token \<times> nat" where
  "string_token q formula position =
     (case scan_string q formula (position + 1) [q] of
        (str, p1) \<Rightarrow>
          (let (str', position') = (if p1 < length formula then (str @ [q], p1 + 1) else (str, p1))
           in (\<lparr>tok_type = STRING, tok_value = str',
                tok_start = int position' - int (length str'), tok_end = int position'\<rparr>,
               position')))"

text \<open>Rule 3: a block comment.\<close>

definition block_comment_token :: "string \<Rightarrow> nat \<Rightarrow> token \<times> nat" where
  "block_comment_token formula position =
     (case scan_block_comment formula (position + 2) ''/*'' of
        (comment, p1) \<Rightarrow>
          (let (comment', position') =
                 (if p1 < length formula then (comment @ ''*/'', p1 + 2) else (comment, p1))
           in (\<lparr>tok_type = COMMENT, tok_value = comment',
                tok_start = int position' - int (length comment'), tok_end = int position'\<rparr>,
               position')))"

text \<open>Rule 4: a line comment, up to a line feed or carriage return.\<close>

definition line_comment_token :: "string \<Rightarrow> nat \<Rightarrow> token \<times> nat" where
  "line_comment_token formula position =
     (case consume_while (\<lambda>c. c \<noteq> CHR 0x0A \<and> c \<noteq> CHR 0x0D) formula (position + 2) ''//'' of
        (comment, position') \<Rightarrow>
          (\<lparr>tok_type = COMMENT, tok_value = comment,
            tok_start = int position' - int (length comment), tok_end = int position'\<rparr>,
           position'))"

text \<open>Rule 5: the first operator of the table that is a prefix of the input at the cursor.\<close>

definition find_operator :: "string \<Rightarrow> nat \<Rightarrow> string option" where
  "find_operator formula position =
     find (\<lambda>op. position + length op \<le> length formula \<and>
                 take (length op) (drop position formula) = op) OPERATORS"

definition operator_token :: "string \<Rightarrow> nat \<Rightarrow> token \<times> nat" where
  "operator_token op position =
     (\<lparr>tok_type = OPERATOR, tok_value = op, tok_start = int position,
       tok_end = int (position + length op)\<rparr>, position + length op)"

text \<open>Rule 6: a bracketed field reference, joined with the fields that follow it after dots.\<close>

definition field_reference_token :: "string \<Rightarrow> nat \<Rightarrow> token \<times> nat" where
  "field_reference_token formula position =
     (case extract_field formula position 0 [] of
        (firstField, tp0) \<Rightarrow>
          (case nested_loop formula tp0 firstField False of
             (fullNestedField, tempPosition, isNestedPattern) \<Rightarrow>
               if isNestedPattern
               then (\<lparr>tok_type = NESTED_FIELD, tok_value = fullNestedField,
                      tok_start = int position, tok_end = int tempPosition\<rparr>, tempPosition)
               else (case scan_field formula (position + 1) 1 ''['' of
                       (field, position') \<Rightarrow>
                         (\<lparr>tok_type = (if CHR ''.'' \<in> set field then NESTED_FIELD else FIELD),
                           tok_value = field,
                           tok_start = int position' - int (length field),
                           tok_end = int position'\<rparr>, position'))))"

text \<open>Rules 7, 8 and 12: one character.\<close>

definition single_char_token :: "token_type \<Rightarrow> string \<Rightarrow> nat \<Rightarrow> token \<times> nat" where
  "single_char_token ty formula position =
     (\<lparr>tok_type = ty, tok_value = [formula ! position], tok_start = int position,
       tok_end = int (position + 1)\<rparr>, position + 1)"

text \<open>Rule 9: digits and dots.\<close>

definition number_token :: "string \<Rightarrow> nat \<Rightarrow> token \<times> nat" where
  "number_token formula position =
     (case consume_while (\<lambda>c. is_digit c \<or> c = CHR ''.'') formula position [] of
        (number, position') \<Rightarrow>
          (\<lparr>tok_type = NUMBER, tok_value = number,
            tok_start = int position' - int (length number), tok_end = int position'\<rparr>,
           position'))"

text \<open>
  Rule 10: a dot is dropped when the last token is a field reference and, after
  whitespace, a bracket follows.
\<close>

definition isPartOfNestedField :: "string \<Rightarrow> nat \<Rightarrow> token list \<Rightarrow> bool" where
  "isPartOfNestedField formula position tokens =
     (tokens \<noteq> [] \<and>
      (tok_type (last tokens) = FIELD \<or> tok_type (last tokens) = NESTED_FIELD) \<and>
      (let tempPosition = skip_space formula (position + 1)
       in tempPosition < length formula \<and> formula ! tempPosition = CHR ''[''))"

text \<open>Rule 11: an identifier.\<close>

definition identifier_token :: "string \<Rightarrow> nat \<Rightarrow> token \<times> nat" where
  "identifier_token formula position =
     (case consume_while is_ident_char formula position [] of
        (identifier, position') \<Rightarrow>
          (\<lparr>tok_type = IDENTIFIER, tok_value = identifier,
            tok_start = int position' - int (length identifier), tok_end = int position'\<rparr>,
           position'))"

definition emit :: "token \<times> nat \<Rightarrow> token option \<times> nat" where
  "emit r = (Some (fst r), snd r)"

text \<open>
  One iteration of the main loop at \<open>position < length\<close>: the token pushed, if any, and
  the new position.
\<close>

definition next_token :: "string \<Rightarrow> nat \<Rightarrow> token list \<Rightarrow> token option \<times> nat" where
  "next_token formula position tokens =
     (let ch = formula ! position
      in if is_space ch then emit (whitespace_token formula position)
         else if ch = CHR 0x22 then emit (string_token (CHR 0x22) formula position)
         else if ch = CHR 0x27 then emit (string_token (CHR 0x27) formula position)
         else if ch = CHR ''/'' \<and> position + 1 < length formula \<and>
                 formula ! (position + 1) = CHR ''*''
           then emit (block_comment_token formula position)
         else if ch = CHR ''/'' \<and> position + 1 < length formula \<and>
                 formula ! (position + 1) = CHR ''/''
           then emit (line_comment_token formula position)
         else (case find_operator formula position of
                 Some op \<Rightarrow> emit (operator_token op position)
               | None \<Rightarrow>
                   if ch = CHR ''['' then emit (field_reference_token formula position)
                   else if ch = CHR ''('' \<or> ch = CHR '')''
                     then emit (single_char_token PARENTHESIS formula position)
                   else if ch = CHR '',''
                     then emit (single_char_token COMMA formula position)
                   else if is_digit ch then emit (number_token formula position)
                   else if ch = CHR ''.''
                     then (if isPartOfNestedField formula position tokens
                           then (None, position + 1)
                           else emit (single_char_token DOT formula position))
                   else if is_ident_start ch then emit (identifier_token formula position)
                   else emit (single_char_token IDENTIFIER formula position)))"

subsection \<open>Every rule consumes at least one character and stays inside the input\<close>

definition advances :: "string \<Rightarrow> nat \<Rightarrow> token \<times> nat \<Rightarrow> bool" where
  "advances f p r =
     (p < snd r \<and> snd r \<le> length f \<and> tok_start (fst r) = int p \<and> tok_end (fst r) = int (snd r))"

lemma whitespace_token_advances:
  assumes "p < length f" "is_space (f ! p)"
  shows "advances f p (whitespace_token f p)"
proof -
  obtain w p' where c: "consume_while is_space f p [] = (w, p')" by (cases "consume_while is_space f p []")
  from consume_while_span [OF c] consume_while_first [OF assms c] assms(1)
  show ?thesis unfolding advances_def whitespace_token_def c by simp
qed

lemma string_token_advances:
  assumes "p < length f"
  shows "advances f p (string_token q f p)"
proof -
  obtain w p1 where c: "scan_string q f (p + 1) [q] = (w, p1)" by (cases "scan_string q f (p + 1) [q]")
  from scan_string_span [OF c] assms
  show ?thesis unfolding advances_def string_token_def c by auto
qed

lemma block_comment_token_advances:
  assumes "p + 1 < length f"
  shows "advances f p (block_comment_token f p)"
proof -
  obtain w p1 where c: "scan_block_comment f (p + 2) ''/*'' = (w, p1)"
    by (cases "scan_block_comment f (p + 2) ''/*''")
  from scan_block_comment_span [OF c] assms
  show ?thesis unfolding advances_def block_comment_token_def c by auto
qed

lemma line_comment_token_advances:
  assumes "p + 1 < length f"
  shows "advances f p (line_comment_token f p)"
proof -
  let ?P = "\<lambda>c. c \<noteq> CHR 0x0A \<and> c \<noteq> CHR 0x0D"
  obtain w p' where c: "consume_while ?P f (p + 2) ''//'' = (w, p')"
    by (cases "consume_while ?P f (p + 2) ''//''")
  from consume_while_span [OF c] assms
  show ?thesis unfolding advances_def line_comment_token_def c by auto
qed

lemma find_operator_Some:
  assumes "find_operator f p = Some op"
  shows "op \<noteq> [] \<and> p + length op \<le> length f"
proof -
  from assms have "op \<in> set OPERATORS \<and> p + length op \<le> length f"
    unfolding find_operator_def by (auto simp add: find_Some_iff)
  then show ?thesis by (auto simp add: OPERATORS_def)
qed

lemma operator_token_advances:
  assumes "find_operator f p = Some op"
  shows "advances f p (operator_token op p)"
  using find_operator_Some [OF assms] by (simp add: advances_def operator_token_def)

lemma nested_loop_span:
  "nested_loop f tp full n = (full', tp', n') \<Longrightarrow>
     tp \<le> tp' \<and> (tp \<le> length f \<longrightarrow> tp' \<le> length f)"
proof (induction f tp full n rule: nested_loop.induct)
  case (1 f tp full n)
  let ?tp1 = "skip_space f tp"
  let ?tp2 = "skip_space f (?tp1 + 1)"
  note s1 = skip_space_span [of tp f]
  note s2 = skip_space_span [of "?tp1 + 1" f]
  show ?case
  proof (cases "tp < length f")
    case False
    with "1.prems" show ?thesis by (simp add: nested_loop.simps [of f tp])
  next
    case True
    show ?thesis
    proof (cases "?tp1 < length f \<and> f ! ?tp1 = CHR ''.''")
      case False
      with True "1.prems" have "tp' = ?tp1"
        by (auto simp add: nested_loop.simps [of f tp] Let_def)
      with s1 True show ?thesis by simp
    next
      case dot: True
      show ?thesis
      proof (cases "?tp2 < length f \<and> f ! ?tp2 = CHR ''[''")
        case False
        with True dot "1.prems" have "tp' = ?tp2"
          by (auto simp add: nested_loop.simps [of f tp] Let_def)
        with s1 s2 True dot show ?thesis by simp
      next
        case br: True
        obtain nf tp3 where e: "extract_field f ?tp2 0 [] = (nf, tp3)"
          by (cases "extract_field f ?tp2 0 []")
        from True dot br e "1.prems"
        have r: "nested_loop f tp3 (full @ ''.'' @ nf) True = (full', tp', n')"
          by (simp add: nested_loop.simps [of f tp] Let_def)
        from "1.IH" [OF True refl dot refl br e [symmetric] r]
        have "tp3 \<le> tp' \<and> (tp3 \<le> length f \<longrightarrow> tp' \<le> length f)" .
        with extract_field_span [OF e] s1 s2 br show ?thesis by simp
      qed
    qed
  qed
qed

lemma field_reference_token_advances:
  assumes "p < length f"
  shows "advances f p (field_reference_token f p)"
proof -
  obtain ff tp0 where e: "extract_field f p 0 [] = (ff, tp0)" by (cases "extract_field f p 0 []")
  obtain full tp n where l: "nested_loop f tp0 ff False = (full, tp, n)"
    by (cases "nested_loop f tp0 ff False")
  obtain fld p' where s: "scan_field f (p + 1) 1 ''['' = (fld, p')"
    by (cases "scan_field f (p + 1) 1 ''[''")
  from extract_field_span [OF e] nested_loop_span [OF l] scan_field_span [OF s] assms
  show ?thesis unfolding advances_def field_reference_token_def e l s prod.case by auto
qed

lemma single_char_token_advances:
  "p < length f \<Longrightarrow> advances f p (single_char_token ty f p)"
  by (simp add: advances_def single_char_token_def)

lemma number_token_advances:
  assumes "p < length f" "is_digit (f ! p)"
  shows "advances f p (number_token f p)"
proof -
  let ?P = "\<lambda>c. is_digit c \<or> c = CHR ''.''"
  obtain w p' where c: "consume_while ?P f p [] = (w, p')" by (cases "consume_while ?P f p []")
  from assms have "?P (f ! p)" by simp
  from consume_while_span [OF c] consume_while_first [of p f ?P, OF assms(1) this c] assms(1)
  show ?thesis unfolding advances_def number_token_def c by simp
qed

lemma identifier_token_advances:
  assumes "p < length f" "is_ident_start (f ! p)"
  shows "advances f p (identifier_token f p)"
proof -
  obtain w p' where c: "consume_while is_ident_char f p [] = (w, p')"
    by (cases "consume_while is_ident_char f p []")
  from assms have "is_ident_char (f ! p)" by (auto simp add: is_ident_start_def is_ident_char_def)
  from consume_while_span [OF c] consume_while_first [OF assms(1) this c] assms(1)
  show ?thesis unfolding advances_def identifier_token_def c by simp
qed

lemma next_token_cases:
  assumes "p < length f"
  shows "(\<exists>t p'. next_token f p toks = (Some t, p') \<and> advances f p (t, p')) \<or>
         (next_token f p toks = (None, p + 1) \<and> f ! p = CHR ''.'' \<and> isPartOfNestedField f p toks)"
proof -
  have e: "advances f p r \<Longrightarrow> \<exists>t p'. emit r = (Some t, p') \<and> advances f p (t, p')" for r
    by (simp add: emit_def)
  note adv = whitespace_token_advances string_token_advances block_comment_token_advances
    line_comment_token_advances operator_token_advances field_reference_token_advances
    single_char_token_advances number_token_advances identifier_token_advances
  show ?thesis
    unfolding next_token_def Let_def
    using assms by (auto split: option.splits intro!: e adv)
qed

lemma next_token_progress:
  "p < length f \<Longrightarrow> next_token f p toks = (r, p') \<Longrightarrow> p < p' \<and> p' \<le> length f"
  using next_token_cases [of p f toks] by (auto simp add: advances_def)

text \<open>The main loop: \<open>while (position < length) { ... }\<close>.\<close>

function tokenize_loop :: "string \<Rightarrow> nat \<Rightarrow> token list \<Rightarrow> token list" where
  "tokenize_loop formula position tokens =
     (if position < length formula
      then (case next_token formula position tokens of
              (Some t, position') \<Rightarrow> tokenize_loop formula position' (tokens @ [t])
            | (None, position') \<Rightarrow> tokenize_loop formula position' tokens)
      else tokens)"
  by pat_completeness auto
termination
proof (relation "measure (\<lambda>(formula, position, tokens). length formula - position)", goal_cases)
  case 1
  show ?case by simp
next
  case (2 formula position tokens r position')
  with next_token_progress [of position formula tokens r position'] show ?case by auto
next
  case (3 formula position tokens r position' t)
  with next_token_progress [of position formula tokens r position'] show ?case by auto
qed

declare tokenize_loop.simps [simp del]

definition tokenizeFormula :: "js_value \<Rightarrow> token list" where
  "tokenizeFormula formula =
     (case formula of
        JSString s \<Rightarrow> if s = [] then [] else tokenize_loop s 0 []
      | _ \<Rightarrow> [])"

section \<open>classifyTokens\<close>

text \<open>
  \<open>String.prototype.toUpperCase\<close> on the letters a to z. The upper-cased value is only
  compared with the keyword tables, whose entries consist of the letters A to Z and the
  underscore, and is only stored when it is one of these entries; no other code unit
  from 0 to 255 has an upper-case form that occurs in these entries.
\<close>

definition upper_char :: "char \<Rightarrow> char" where
  "upper_char c = (if is_lower c then char_of (of_char c - 32 :: nat) else c)"

definition toUpperCase :: "string \<Rightarrow> string" where
  "toUpperCase s = map upper_char s"

definition allFunctions :: "string list" where
  "allFunctions = SF_logical @ SF_text @ SF_math @ SF_datetime @ SF_conversion @ SF_advanced"

text \<open>
  The look-ahead \<open>for (let i = index + 1; i < tokens.length; i++)\<close> over the tokens that
  follow: whitespace is skipped, and the first other token decides.
\<close>

fun followed_by_open_paren :: "token list \<Rightarrow> bool" where
  "followed_by_open_paren [] = False"
| "followed_by_open_paren (t # ts) =
     (if tok_type t = WHITESPACE then followed_by_open_paren ts
      else tok_type t = PARENTHESIS \<and> tok_value t = ''('')"

text \<open>\<open>/^[a-z]/\<close>, \<open>/^[A-Z]/\<close> and \<open>/^[A-Z][a-zA-Z0-9_]*$/\<close>\<close>

definition starts_lower :: "string \<Rightarrow> bool" where
  "starts_lower v = (case v of [] \<Rightarrow> False | c # cs \<Rightarrow> is_lower c)"

definition starts_upper :: "string \<Rightarrow> bool" where
  "starts_upper v = (case v of [] \<Rightarrow> False | c # cs \<Rightarrow> is_upper c)"

definition looks_like_field_name :: "string \<Rightarrow> bool" where
  "looks_like_field_name v =
     (case v of [] \<Rightarrow> False | c # cs \<Rightarrow> is_upper c \<and> list_all is_ident_char cs)"

text \<open>The callback of \<open>tokens.map\<close>; \<open>rest\<close> holds the tokens after \<open>index\<close>.\<close>

definition classify_token :: "token \<Rightarrow> token list \<Rightarrow> token" where
  "classify_token token rest =
     (if tok_type token = IDENTIFIER
      then (let upperValue = toUpperCase (tok_value token)
            in if upperValue \<in> set allFunctions
               then token\<lparr>tok_type := FUNCTION, tok_value := upperValue\<rparr>
               else if upperValue \<in> set SF_constants
               then token\<lparr>tok_type := CONSTANT, tok_value := upperValue\<rparr>
               else if starts_lower (tok_value token) \<and> followed_by_open_paren rest
               then token\<lparr>tok_type := CUSTOM_FUNCTION\<rparr>
               else if CHR ''_'' \<in> set (tok_value token) \<and> looks_like_field_name (tok_value token)
               then token\<lparr>tok_type := FORMULA_FIELD\<rparr>
               else token)
      else token)"

fun classifyTokens :: "token list \<Rightarrow> token list" where
  "classifyTokens [] = []"
| "classifyTokens (token # rest) = classify_token token rest # classifyTokens rest"

section \<open>detectFormulaErrors and markErrorTokens\<close>

datatype error_kind = Syntax | Function

record formula_error =
  err_position :: int
  err_message :: string
  err_type :: error_kind

record detect_state =
  openParens :: int
  openBrackets :: int
  errors :: "formula_error list"

text \<open>The decimal digits of an integer, as a template literal prints it.\<close>

definition digit_char :: "nat \<Rightarrow> char" where
  "digit_char d = ''0123456789'' ! d"

function decimal :: "nat \<Rightarrow> string" where
  "decimal n = (if n < 10 then [digit_char n] else decimal (n div 10) @ [digit_char (n mod 10)])"
  by pat_completeness auto
termination
  by (relation "measure id") auto

declare decimal.simps [simp del]

definition number_to_string :: "int \<Rightarrow> string" where
  "number_to_string i = (if 0 \<le> i then decimal (nat i) else CHR ''-'' # decimal (nat (- i)))"

text \<open>The body of the loop over the tokens; \<open>rest\<close> holds the tokens after index \<open>i\<close>.\<close>

definition check_parenthesis :: "token \<Rightarrow> detect_state \<Rightarrow> detect_state" where
  "check_parenthesis token st =
     (if tok_type token = PARENTHESIS
      then (if tok_value token = ''(''
            then st\<lparr>openParens := openParens st + 1\<rparr>
            else if tok_value token = '')''
            then (let st' = st\<lparr>openParens := openParens st - 1\<rparr>
                  in if openParens st' < 0
                     then st'\<lparr>errors := errors st' @
                            [\<lparr>err_position = tok_start token,
                              err_message = ''Unmatched closing parenthesis'',
                              err_type = Syntax\<rparr>]\<rparr>
                     else st')
            else st)
      else st)"

definition check_bracket :: "token \<Rightarrow> detect_state \<Rightarrow> detect_state" where
  "check_bracket token st =
     (if tok_type token = BRACKET
      then (if tok_value token = ''[''
            then st\<lparr>openBrackets := openBrackets st + 1\<rparr>
            else if tok_value token = '']''
            then (let st' = st\<lparr>openBrackets := openBrackets st - 1\<rparr>
                  in if openBrackets st' < 0
                     then st'\<lparr>errors := errors st' @
                            [\<lparr>err_position = tok_start token,
                              err_message = ''Unmatched closing bracket'',
                              err_type = Syntax\<rparr>]\<rparr>
                     else st')
            else st)
      else st)"

definition invalid_function_error :: "token \<Rightarrow> formula_error" where
  "invalid_function_error token =
     \<lparr>err_position = tok_start token,
      err_message = ''Invalid function: '' @ tok_value token,
      err_type = Function\<rparr>"

definition check_function :: "token \<Rightarrow> token list \<Rightarrow> detect_state \<Rightarrow> detect_state" where
  "check_function token rest st =
     (if tok_type token = IDENTIFIER
      then (let upperValue = toUpperCase (tok_value token);
                isFunctionCall = followed_by_open_paren rest
            in if isFunctionCall \<and> upperValue \<notin> set allFunctions \<and> starts_upper (tok_value token)
               then st\<lparr>errors := errors st @ [invalid_function_error token]\<rparr>
               else st)
      else st)"

fun detect_loop :: "token list \<Rightarrow> detect_state \<Rightarrow> detect_state" where
  "detect_loop [] st = st"
| "detect_loop (token # rest) st =
     detect_loop rest (check_function token rest (check_bracket token (check_parenthesis token st)))"

definition unmatched_openings :: "string \<Rightarrow> detect_state \<Rightarrow> formula_error list" where
  "unmatched_openings formula st =
     (let errors1 =
            (if openParens st > 0
             then errors st @
                  [\<lparr>err_position = int (length formula) - 1,
                    err_message = number_to_string (openParens st) @ '' unmatched opening parenthesis'' @
                                  (if openParens st > 1 then ''es'' else []),
                    err_type = Syntax\<rparr>]
             else errors st)
      in if openBrackets st > 0
         then errors1 @
              [\<lparr>err_position = int (length formula) - 1,
                err_message = number_to_string (openBrackets st) @ '' unmatched opening bracket'' @
                              (if openBrackets st > 1 then ''s'' else []),
                err_type = Syntax\<rparr>]
         else errors1)"

definition detectFormulaErrors :: "js_value \<Rightarrow> formula_error list" where
  "detectFormulaErrors formula =
     (case formula of
        JSString s \<Rightarrow>
          if s = [] then []
          else unmatched_openings s
                 (detect_loop (tokenizeFormula formula)
                    \<lparr>openParens = 0, openBrackets = 0, errors = []\<rparr>)
      | _ \<Rightarrow> [])"

definition markErrorTokens :: "token list \<Rightarrow> formula_error list \<Rightarrow> token list" where
  "markErrorTokens tokens errs =
     (let errorPositions = set (map err_position errs)
      in map (\<lambda>token. if tok_start token \<in> errorPositions \<or> tok_end token - 1 \<in> errorPositions
                       then token\<lparr>tok_type := ERROR\<rparr> else token) tokens)"

section \<open>prettifySalesforceFormula\<close>

text \<open>
  \<open>String.prototype.replace\<close> with a global regular expression: the input is scanned from
  left to right; where the expression matches, the replacement is emitted and the scan
  continues after the match, otherwise one character is copied. A matcher gets the
  character before the cursor (for \<open>\b\<close>) and the rest of the input, and returns the
  length of the match at the cursor. Every expression of the pretty-printer matches at
  least one character.
\<close>

type_synonym matcher = "char option \<Rightarrow> string \<Rightarrow> nat option"

function replace_global :: "matcher \<Rightarrow> (string \<Rightarrow> string) \<Rightarrow> char option \<Rightarrow> string \<Rightarrow> string" where
  "replace_global m rep prev s =
     (case s of
        [] \<Rightarrow> []
      | c # cs \<Rightarrow>
          (case m prev s of
             None \<Rightarrow> c # replace_global m rep (Some c) cs
           | Some n \<Rightarrow>
               if 0 < n \<and> n \<le> length s
               then rep (take n s) @ replace_global m rep (Some (s ! (n - 1))) (drop n s)
               else c # replace_global m rep (Some c) cs))"
  by pat_completeness auto
termination
  by (relation "measure (\<lambda>(m, rep, prev, s). length s)") auto

declare replace_global.simps [simp del]

definition js_replace :: "matcher \<Rightarrow> (string \<Rightarrow> string) \<Rightarrow> string \<Rightarrow> string" where
  "js_replace m rep s = replace_global m rep None s"

text \<open>\<open>[ \t]\<close>\<close>

definition is_hspace :: "char \<Rightarrow> bool" where
  "is_hspace c = (c = CHR '' '' \<or> c = CHR 0x09)"

text \<open>A literal pattern such as \<open>/<=/\<close> or \<open>/___AND___/\<close>.\<close>

definition match_literal :: "string \<Rightarrow> matcher" where
  "match_literal pat prev s =
     (if pat \<noteq> [] \<and> take (length pat) s = pat then Some (length pat) else None)"

text \<open>\<open>/[ \t]*[cls][ \t]*/\<close>, for a class \<open>cls\<close> of characters that are not blanks.\<close>

definition match_spaced :: "string \<Rightarrow> matcher" where
  "match_spaced cls prev s =
     (let k = length (takeWhile is_hspace s)
      in case drop k s of
           [] \<Rightarrow> None
         | c # cs \<Rightarrow>
             if c \<in> set cls then Some (k + 1 + length (takeWhile is_hspace cs)) else None)"

text \<open>\<open>/a[ \t]*b/\<close>, for characters \<open>a\<close> and \<open>b\<close> that are not blanks.\<close>

definition match_split :: "char \<Rightarrow> char \<Rightarrow> matcher" where
  "match_split a b prev s =
     (case s of
        [] \<Rightarrow> None
      | c # cs \<Rightarrow>
          if c = a
          then (let k = length (takeWhile is_hspace cs)
                in case drop k cs of
                     [] \<Rightarrow> None
                   | d # ds \<Rightarrow> if d = b then Some (k + 2) else None)
          else None)"

text \<open>\<open>/[ \t]+/\<close>\<close>

definition match_hspaces :: matcher where
  "match_hspaces prev s =
     (let k = length (takeWhile is_hspace s) in if 0 < k then Some k else None)"

text \<open>
  \<open>new RegExp("\\bWORD\\b", "gi")\<close>: a word boundary lies between a word character
  (\<open>[A-Za-z0-9_]\<close>) and a character that is none, or an end of the input; letters are
  compared without regard to case.
\<close>

definition is_word :: "char option \<Rightarrow> bool" where
  "is_word c = (case c of None \<Rightarrow> False | Some x \<Rightarrow> is_ident_char x)"

definition char_at :: "string \<Rightarrow> nat \<Rightarrow> char option" where
  "char_at s i = (if i < length s then Some (s ! i) else None)"

definition match_word :: "string \<Rightarrow> matcher" where
  "match_word w prev s =
     (let n = length w
      in if 0 < n \<and> n \<le> length s
         then (if is_word prev \<noteq> is_word (char_at s 0)
               then (if toUpperCase (take n s) = toUpperCase w
                     then (if is_word (char_at s (n - 1)) \<noteq> is_word (char_at s n)
                           then Some n else None)
                     else None)
               else None)
         else None)"

text \<open>\<open>String.prototype.trim\<close>\<close>

definition js_trim :: "string \<Rightarrow> string" where
  "js_trim s = rev (dropWhile is_space (rev (dropWhile is_space s)))"

definition multiCharOps :: "(string \<times> string) list" where
  "multiCharOps =
     [(''<='', ''___LESS_EQUAL___''), (''>='', ''___GREATER_EQUAL___''),
      (''<>'', ''___NOT_EQUAL___''), (''=='', ''___EQUAL_EQUAL___''),
      (''&&'', ''___AND___''), (''||'', ''___OR___'')]"

text \<open>Step 1: protect the multi-character operators.\<close>

definition protect_operators :: "string \<Rightarrow> string" where
  "protect_operators s =
     fold (\<lambda>(pattern, replacement). js_replace (match_literal pattern) (\<lambda>m. replacement))
       multiCharOps s"

text \<open>Step 2: one space on each side of every single-character operator.\<close>

definition space_operator :: "char \<Rightarrow> string \<Rightarrow> string" where
  "space_operator c s = js_replace (match_spaced [c]) (\<lambda>m. [CHR '' '', c, CHR '' '']) s"

definition space_operators :: "string \<Rightarrow> string" where
  "space_operators s = fold space_operator ''=><+-*/'' s"

text \<open>Step 3: \<open>replace(/[ \t]*([(),])[ \t]*/g, "$1 ")\<close>\<close>

definition space_delimiters :: "string \<Rightarrow> string" where
  "space_delimiters s =
     js_replace (match_spaced ''(),'') (\<lambda>m. filter (\<lambda>c. \<not> is_hspace c) m @ '' '') s"

text \<open>Steps 4 and 6: \<open>replace(/[ \t]+/g, " ")\<close>\<close>

definition collapse_blanks :: "string \<Rightarrow> string" where
  "collapse_blanks s = js_replace match_hspaces (\<lambda>m. '' '') s"

text \<open>Step 5: restore the multi-character operators, and rejoin those that were split.\<close>

definition restore_operators :: "string \<Rightarrow> string" where
  "restore_operators s =
     fold (\<lambda>(pattern, replacement). js_replace (match_literal pattern) (\<lambda>m. replacement))
       [(''___LESS_EQUAL___'', '' <= ''), (''___GREATER_EQUAL___'', '' >= ''),
        (''___NOT_EQUAL___'', '' <> ''), (''___EQUAL_EQUAL___'', '' == ''),
        (''___AND___'', '' && ''), (''___OR___'', '' || '')] s"

definition rejoin_operators :: "string \<Rightarrow> string" where
  "rejoin_operators s =
     fold (\<lambda>(a, b, replacement). js_replace (match_split a b) (\<lambda>m. replacement))
       [(CHR ''>'', CHR ''='', '' >= ''), (CHR ''<'', CHR ''='', '' <= ''),
        (CHR ''<'', CHR ''>'', '' <> ''), (CHR ''='', CHR ''='', '' == ''),
        (CHR ''&'', CHR ''&'', '' && ''), (CHR ''|'', CHR ''|'', '' || '')] s"

text \<open>The function names of the pretty-printer: all categories but the advanced ones.\<close>

definition prettify_functions :: "string list" where
  "prettify_functions = SF_logical @ SF_text @ SF_math @ SF_datetime @ SF_conversion"

definition capitalize :: "string list \<Rightarrow> string \<Rightarrow> string" where
  "capitalize names s = fold (\<lambda>name. js_replace (match_word name) (\<lambda>m. toUpperCase name)) names s"

text \<open>The last step: \<open>" ("\<close> for an opening and \<open>") "\<close> for a closing parenthesis.\<close>

definition space_parentheses :: "string \<Rightarrow> string" where
  "space_parentheses s =
     js_trim (collapse_blanks
       (js_replace (match_spaced '')'') (\<lambda>m. '') '')
         (js_replace (match_spaced ''('') (\<lambda>m. '' ('') s)))"

text \<open>Steps 1 to 6: the spacing of operators and delimiters.\<close>

definition normalize_spacing :: "string \<Rightarrow> string" where
  "normalize_spacing formula =
     (let result = js_trim formula;
          result = protect_operators result;
          result = space_operators result;
          result = space_delimiters result;
          result = collapse_blanks result;
          result = rejoin_operators (restore_operators result)
      in js_trim (collapse_blanks result))"

definition prettify_string :: "string \<Rightarrow> string" where
  "prettify_string formula =
     (let result = normalize_spacing formula;
          result = capitalize prettify_functions result;
          result = capitalize SF_constants result
      in space_parentheses result)"

definition prettifySalesforceFormula :: "js_value \<Rightarrow> js_value" where
  "prettifySalesforceFormula formula =
     (case formula of
        JSString s \<Rightarrow> if s = [] then formula else JSString (prettify_string s)
      | _ \<Rightarrow> formula)"

section \<open>Evaluation of the pretty-printer\<close>

text \<open>The character classes on the printable ASCII characters.\<close>

lemma upper_char_ascii:
  "upper_char (CHR '' '') = CHR '' ''"
  "upper_char (CHR ''!'') = CHR ''!''"
  "upper_char (CHR 0x22) = CHR 0x22"
  "upper_char (CHR ''#'') = CHR ''#''"
  "upper_char (CHR ''$'') = CHR ''$''"
  "upper_char (CHR ''%'') = CHR ''%''"
  "upper_char (CHR ''&'') = CHR ''&''"
  "upper_char (CHR 0x27) = CHR 0x27"
  "upper_char (CHR ''('') = CHR ''(''"
  "upper_char (CHR '')'') = CHR '')''"
  "upper_char (CHR ''*'') = CHR ''*''"
  "upper_char (CHR ''+'') = CHR ''+''"
  "upper_char (CHR '','') = CHR '',''"
  "upper_char (CHR ''-'') = CHR ''-''"
  "upper_char (CHR ''.'') = CHR ''.''"
  "upper_char (CHR ''/'') = CHR ''/''"
  "upper_char (CHR ''0'') = CHR ''0''"
  "upper_char (CHR ''1'') = CHR ''1''"
  "upper_char (CHR ''2'') = CHR ''2''"
  "upper_char (CHR ''3'') = CHR ''3''"
  "upper_char (CHR ''4'') = CHR ''4''"
  "upper_char (CHR ''5'') = CHR ''5''"
  "upper_char (CHR ''6'') = CHR ''6''"
  "upper_char (CHR ''7'') = CHR ''7''"
  "upper_char (CHR ''8'') = CHR ''8''"
  "upper_char (CHR ''9'') = CHR ''9''"
  "upper_char (CHR '':'') = CHR '':''"
  "upper_char (CHR '';'') = CHR '';''"
  "upper_char (CHR ''<'') = CHR ''<''"
  "upper_char (CHR ''='') = CHR ''=''"
  "upper_char (CHR ''>'') = CHR ''>''"
  "upper_char (CHR ''?'') = CHR ''?''"
  "upper_char (CHR ''@'') = CHR ''@''"
  "upper_char (CHR ''A'') = CHR ''A''"
  "upper_char (CHR ''B'') = CHR ''B''"
  "upper_char (CHR ''C'') = CHR ''C''"
  "upper_char (CHR ''D'') = CHR ''D''"
  "upper_char (CHR ''E'') = CHR ''E''"
  "upper_char (CHR ''F'') = CHR ''F''"
  "upper_char (CHR ''G'') = CHR ''G''"
  "upper_char (CHR ''H'') = CHR ''H''"
  "upper_char (CHR ''I'') = CHR ''I''"
  "upper_char (CHR ''J'') = CHR ''J''"
  "upper_char (CHR ''K'') = CHR ''K''"
  "upper_char (CHR ''L'') = CHR ''L''"
  "upper_char (CHR ''M'') = CHR ''M''"
  "upper_char (CHR ''N'') = CHR ''N''"
  "upper_char (CHR ''O'') = CHR ''O''"
  "upper_char (CHR ''P'') = CHR ''P''"
  "upper_char (CHR ''Q'') = CHR ''Q''"
  "upper_char (CHR ''R'') = CHR ''R''"
  "upper_char (CHR ''S'') = CHR ''S''"
  "upper_char (CHR ''T'') = CHR ''T''"
  "upper_char (CHR ''U'') = CHR ''U''"
  "upper_char (CHR ''V'') = CHR ''V''"
  "upper_char (CHR ''W'') = CHR ''W''"
  "upper_char (CHR ''X'') = CHR ''X''"
  "upper_char (CHR ''Y'') = CHR ''Y''"
  "upper_char (CHR ''Z'') = CHR ''Z''"
  "upper_char (CHR ''['') = CHR ''[''"
  "upper_char (CHR 0x5C) = CHR 0x5C"
  "upper_char (CHR '']'') = CHR '']''"
  "upper_char (CHR ''^'') = CHR ''^''"
  "upper_char (CHR ''_'') = CHR ''_''"
  "upper_char (CHR 0x60) = CHR 0x60"
  "upper_char (CHR ''a'') = CHR ''A''"
  "upper_char (CHR ''b'') = CHR ''B''"
  "upper_char (CHR ''c'') = CHR ''C''"
  "upper_char (CHR ''d'') = CHR ''D''"
  "upper_char (CHR ''e'') = CHR ''E''"
  "upper_char (CHR ''f'') = CHR ''F''"
  "upper_char (CHR ''g'') = CHR ''G''"
  "upper_char (CHR ''h'') = CHR ''H''"
  "upper_char (CHR ''i'') = CHR ''I''"
  "upper_char (CHR ''j'') = CHR ''J''"
  "upper_char (CHR ''k'') = CHR ''K''"
  "upper_char (CHR ''l'') = CHR ''L''"
  "upper_char (CHR ''m'') = CHR ''M''"
  "upper_char (CHR ''n'') = CHR ''N''"
  "upper_char (CHR ''o'') = CHR ''O''"
  "upper_char (CHR ''p'') = CHR ''P''"
  "upper_char (CHR ''q'') = CHR ''Q''"
  "upper_char (CHR ''r'') = CHR ''R''"
  "upper_char (CHR ''s'') = CHR ''S''"
  "upper_char (CHR ''t'') = CHR ''T''"
  "upper_char (CHR ''u'') = CHR ''U''"
  "upper_char (CHR ''v'') = CHR ''V''"
  "upper_char (CHR ''w'') = CHR ''W''"
  "upper_char (CHR ''x'') = CHR ''X''"
  "upper_char (CHR ''y'') = CHR ''Y''"
  "upper_char (CHR ''z'') = CHR ''Z''"
  "upper_char (CHR ''{'') = CHR ''{''"
  "upper_char (CHR ''|'') = CHR ''|''"
  "upper_char (CHR ''}'') = CHR ''}''"
  "upper_char (CHR ''~'') = CHR ''~''"
  by (simp_all add: upper_char_def is_lower_def char_of_eq_iff)

lemma is_ident_char_ascii:
  "is_ident_char (CHR '' '') = False"
  "is_ident_char (CHR ''!'') = False"
  "is_ident_char (CHR 0x22) = False"
  "is_ident_char (CHR ''#'') = False"
  "is_ident_char (CHR ''$'') = False"
  "is_ident_char (CHR ''%'') = False"
  "is_ident_char (CHR ''&'') = False"
  "is_ident_char (CHR 0x27) = False"
  "is_ident_char (CHR ''('') = False"
  "is_ident_char (CHR '')'') = False"
  "is_ident_char (CHR ''*'') = False"
  "is_ident_char (CHR ''+'') = False"
  "is_ident_char (CHR '','') = False"
  "is_ident_char (CHR ''-'') = False"
  "is_ident_char (CHR ''.'') = False"
  "is_ident_char (CHR ''/'') = False"
  "is_ident_char (CHR ''0'') = True"
  "is_ident_char (CHR ''1'') = True"
  "is_ident_char (CHR ''2'') = True"
  "is_ident_char (CHR ''3'') = True"
  "is_ident_char (CHR ''4'') = True"
  "is_ident_char (CHR ''5'') = True"
  "is_ident_char (CHR ''6'') = True"
  "is_ident_char (CHR ''7'') = True"
  "is_ident_char (CHR ''8'') = True"
  "is_ident_char (CHR ''9'') = True"
  "is_ident_char (CHR '':'') = False"
  "is_ident_char (CHR '';'') = False"
  "is_ident_char (CHR ''<'') = False"
  "is_ident_char (CHR ''='') = False"
  "is_ident_char (CHR ''>'') = False"
  "is_ident_char (CHR ''?'') = False"
  "is_ident_char (CHR ''@'') = False"
  "is_ident_char (CHR ''A'') = True"
  "is_ident_char (CHR ''B'') = True"
  "is_ident_char (CHR ''C'') = True"
  "is_ident_char (CHR ''D'') = True"
  "is_ident_char (CHR ''E'') = True"
  "is_ident_char (CHR ''F'') = True"
  "is_ident_char (CHR ''G'') = True"
  "is_ident_char (CHR ''H'') = True"
  "is_ident_char (CHR ''I'') = True"
  "is_ident_char (CHR ''J'') = True"
  "is_ident_char (CHR ''K'') = True"
  "is_ident_char (CHR ''L'') = True"
  "is_ident_char (CHR ''M'') = True"
  "is_ident_char (CHR ''N'') = True"
  "is_ident_char (CHR ''O'') = True"
  "is_ident_char (CHR ''P'') = True"
  "is_ident_char (CHR ''Q'') = True"
  "is_ident_char (CHR ''R'') = True"
  "is_ident_char (CHR ''S'') = True"
  "is_ident_char (CHR ''T'') = True"
  "is_ident_char (CHR ''U'') = True"
  "is_ident_char (CHR ''V'') = True"
  "is_ident_char (CHR ''W'') = True"
  "is_ident_char (CHR ''X'') = True"
  "is_ident_char (CHR ''Y'') = True"
  "is_ident_char (CHR ''Z'') = True"
  "is_ident_char (CHR ''['') = False"
  "is_ident_char (CHR 0x5C) = False"
  "is_ident_char (CHR '']'') = False"
  "is_ident_char (CHR ''^'') = False"
  "is_ident_char (CHR ''_'') = True"
  "is_ident_char (CHR 0x60) = False"
  "is_ident_char (CHR ''a'') = True"
  "is_ident_char (CHR ''b'') = True"
  "is_ident_char (CHR ''c'') = True"
  "is_ident_char (CHR ''d'') = True"
  "is_ident_char (CHR ''e'') = True"
  "is_ident_char (CHR ''f'') = True"
  "is_ident_char (CHR ''g'') = True"
  "is_ident_char (CHR ''h'') = True"
  "is_ident_char (CHR ''i'') = True"
  "is_ident_char (CHR ''j'') = True"
  "is_ident_char (CHR ''k'') = True"
  "is_ident_char (CHR ''l'') = True"
  "is_ident_char (CHR ''m'') = True"
  "is_ident_char (CHR ''n'') = True"
  "is_ident_char (CHR ''o'') = True"
  "is_ident_char (CHR ''p'') = True"
  "is_ident_char (CHR ''q'') = True"
  "is_ident_char (CHR ''r'') = True"
  "is_ident_char (CHR ''s'') = True"
  "is_ident_char (CHR ''t'') = True"
  "is_ident_char (CHR ''u'') = True"
  "is_ident_char (CHR ''v'') = True"
  "is_ident_char (CHR ''w'') = True"
  "is_ident_char (CHR ''x'') = True"
  "is_ident_char (CHR ''y'') = True"
  "is_ident_char (CHR ''z'') = True"
  "is_ident_char (CHR ''{'') = False"
  "is_ident_char (CHR ''|'') = False"
  "is_ident_char (CHR ''}'') = False"
  "is_ident_char (CHR ''~'') = False"
  by (simp_all add: is_ident_char_def is_lower_def is_upper_def is_digit_def)

text \<open>
  A keyword that does not occur in the input, compared without regard to case, is not
  matched anywhere, so its pass leaves the input as it is.
\<close>

fun starts_with :: "string \<Rightarrow> string \<Rightarrow> bool" where
  "starts_with [] s = True"
| "starts_with (a # w) [] = False"
| "starts_with (a # w) (c # cs) = (a = c \<and> starts_with w cs)"

fun occurs :: "string \<Rightarrow> string \<Rightarrow> bool" where
  "occurs w [] = (w = [])"
| "occurs w (c # cs) = (starts_with w (c # cs) \<or> occurs w cs)"

lemma starts_with_take: "n \<le> length s \<Longrightarrow> starts_with (take n s) s"
  by (induction s arbitrary: n) (auto simp add: take_Cons split: nat.splits)

lemma match_word_starts_with:
  "match_word w prev s = Some n \<Longrightarrow> starts_with (toUpperCase w) (toUpperCase s)"
  using starts_with_take [of "length w" "toUpperCase s"]
  by (auto simp add: match_word_def Let_def toUpperCase_def take_map split: if_splits)

lemma replace_global_absent:
  "\<not> occurs (toUpperCase w) (toUpperCase s) \<Longrightarrow> replace_global (match_word w) rep prev s = s"
proof (induction s arbitrary: prev)
  case Nil
  show ?case by (simp add: replace_global.simps)
next
  case (Cons c cs)
  from Cons.prems have a: "\<not> starts_with (toUpperCase w) (toUpperCase (c # cs))"
    and b: "\<not> occurs (toUpperCase w) (toUpperCase cs)"
    by (simp_all add: toUpperCase_def)
  from a match_word_starts_with [of w prev "c # cs"] have "match_word w prev (c # cs) = None"
    by (cases "match_word w prev (c # cs)") auto
  with Cons.IH [OF b] show ?case by (simp add: replace_global.simps [of _ _ prev "c # cs"])
qed

lemma capitalize_Nil: "capitalize [] s = s"
  by (simp add: capitalize_def)

lemma capitalize_Cons:
  "capitalize (w # ws) s =
     (if occurs (toUpperCase w) (toUpperCase s)
      then capitalize ws (replace_global (match_word w) (\<lambda>m. toUpperCase w) None s)
      else capitalize ws s)"
  by (simp add: capitalize_def js_replace_def replace_global_absent)

lemma replace_global_Nil: "replace_global m rep prev [] = []"
  by (simp add: replace_global.simps)

lemma replace_global_Cons:
  "replace_global m rep prev (c # cs) =
     (case m prev (c # cs) of
        None \<Rightarrow> c # replace_global m rep (Some c) cs
      | Some n \<Rightarrow>
          if 0 < n \<and> n \<le> length (c # cs)
          then rep (take n (c # cs)) @
               replace_global m rep (Some ((c # cs) ! (n - 1))) (drop n (c # cs))
          else c # replace_global m rep (Some c) cs)"
  by (simp add: replace_global.simps [of m rep prev "c # cs"])

lemma match_word_Cons:
  "match_word (a # w) prev (c # cs) =
     (if upper_char c = upper_char a
      then (let n = length (a # w)
            in if n \<le> length (c # cs)
               then (if is_word prev \<noteq> is_word (Some c)
                     then (if toUpperCase (take n (c # cs)) = toUpperCase (a # w)
                           then (if is_word (char_at (c # cs) (n - 1)) \<noteq>
                                    is_word (char_at (c # cs) n)
                                 then Some n else None)
                           else None)
                     else None)
               else None)
      else None)"
  by (auto simp add: match_word_def toUpperCase_def Let_def char_at_def)

lemmas capitalize_eval =
  upper_char_ascii is_ident_char_ascii toUpperCase_def capitalize_Nil capitalize_Cons
  replace_global_Nil replace_global_Cons match_word_Cons is_word_def char_at_def
  prettify_functions_def SF_logical_def SF_text_def SF_math_def SF_datetime_def
  SF_conversion_def SF_constants_def

lemma prettify_example_spacing:
  "normalize_spacing ''if(a=1,true,false)'' = ''if( a = 1, true, false)''"
  by code_simp

lemma prettify_example_functions:
  "capitalize prettify_functions ''if( a = 1, true, false)'' = ''IF( a = 1, true, false)''"
  by (simp add: capitalize_eval)

lemma prettify_example_constants:
  "capitalize SF_constants ''IF( a = 1, true, false)'' = ''IF( a = 1, TRUE, FALSE)''"
  by (simp add: capitalize_eval)

lemma prettify_example_parentheses:
  "space_parentheses ''IF( a = 1, TRUE, FALSE)'' = ''IF (a = 1, TRUE, FALSE)''"
  by code_simp

lemma prettify_example:
  "prettify_string ''if(a=1,true,false)'' = ''IF (a = 1, TRUE, FALSE)''"
  by (simp only: prettify_string_def Let_def prettify_example_spacing prettify_example_functions
        prettify_example_constants prettify_example_parentheses)

section \<open>Properties of the tokenizer on concrete inputs\<close>

text \<open>
  Claim C3. Chained bracketed references are joined into one token:
  \<open>[Account].[Owner].[Name]\<close> tokenizes to exactly one \<open>nested_field\<close> token whose value
  is the whole text, \<open>[Account.Name]\<close> to exactly one \<open>nested_field\<close> token whose value is
  the whole text, and \<open>[Name]\<close> to exactly one \<open>field\<close> token with value \<open>[Name]\<close>.
\<close>

theorem tokenize_field_references:
  "tokenizeFormula (JSString ''[Account].[Owner].[Name]'') =
     [\<lparr>tok_type = NESTED_FIELD, tok_value = ''[Account].[Owner].[Name]'',
       tok_start = 0, tok_end = 24\<rparr>] \<and>
   tokenizeFormula (JSString ''[Account.Name]'') =
     [\<lparr>tok_type = NESTED_FIELD, tok_value = ''[Account.Name]'', tok_start = 0, tok_end = 14\<rparr>] \<and>
   tokenizeFormula (JSString ''[Name]'') =
     [\<lparr>tok_type = FIELD, tok_value = ''[Name]'', tok_start = 0, tok_end = 6\<rparr>]"
  by code_simp

section \<open>Properties of the error detector on concrete inputs\<close>

text \<open>
  Claim C4. For \<open>IF(1,2,3\<close> the detector returns exactly one error, of kind syntax,
  reporting one unmatched opening parenthesis at position \<open>length text - 1\<close>; for
  \<open>IF(1,2,3))\<close> it returns exactly one error, of kind syntax, for the extra closing
  parenthesis, at the start offset of that parenthesis token (the last token).
\<close>

theorem detect_unbalanced_parentheses:
  "detectFormulaErrors (JSString ''IF(1,2,3'') =
     [\<lparr>err_position = int (length ''IF(1,2,3'') - 1,
       err_message = ''1 unmatched opening parenthesis'', err_type = Syntax\<rparr>] \<and>
   detectFormulaErrors (JSString ''IF(1,2,3))'') =
     [\<lparr>err_position = tok_start (last (tokenizeFormula (JSString ''IF(1,2,3))''))),
       err_message = ''Unmatched closing parenthesis'', err_type = Syntax\<rparr>] \<and>
   last (tokenizeFormula (JSString ''IF(1,2,3))'')) =
     \<lparr>tok_type = PARENTHESIS, tok_value = '')'', tok_start = 9, tok_end = 10\<rparr>"
  by code_simp

section \<open>The pretty-printer on the worked example\<close>

text \<open>
  Claim C1, as amended. \<open>prettify("if(a=1,true,false)")\<close> returns exactly
  \<open>"IF (a = 1, TRUE, FALSE)"\<close>: the function name and the constants are upper-cased, the
  operator and the commas are spaced, and the last step puts one space before the
  opening parenthesis.
\<close>

theorem prettify_worked_example:
  "prettifySalesforceFormula (JSString ''if(a=1,true,false)'') =
     JSString ''IF (a = 1, TRUE, FALSE)''"
  by (simp add: prettifySalesforceFormula_def prettify_example)

text \<open>
  Claim C1, as stated, fails: the result is not \<open>"IF(a = 1, TRUE, FALSE)"\<close>, because a
  space does appear before the opening parenthesis.
\<close>

theorem prettify_worked_example_not_as_stated:
  "prettifySalesforceFormula (JSString ''if(a=1,true,false)'') \<noteq>
     JSString ''IF(a = 1, TRUE, FALSE)''"
  by (simp add: prettifySalesforceFormula_def prettify_example)

section \<open>Termination of the tokenizer\<close>

text \<open>
  The main loop with a bound on the number of iterations: \<open>None\<close> when the bound is
  reached before the end of the input.
\<close>

fun tokenize_fuel :: "nat \<Rightarrow> string \<Rightarrow> nat \<Rightarrow> token list \<Rightarrow> token list option" where
  "tokenize_fuel 0 formula position tokens =
     (if position < length formula then None else Some tokens)"
| "tokenize_fuel (Suc n) formula position tokens =
     (if position < length formula
      then (case next_token formula position tokens of
              (Some t, position') \<Rightarrow> tokenize_fuel n formula position' (tokens @ [t])
            | (None, position') \<Rightarrow> tokenize_fuel n formula position' tokens)
      else Some tokens)"

lemma tokenize_fuel_enough:
  "length f - p \<le> n \<Longrightarrow> tokenize_fuel n f p toks = Some (tokenize_loop f p toks)"
proof (induction f p toks arbitrary: n rule: tokenize_loop.induct)
  case (1 f p toks)
  show ?case
  proof (cases "p < length f")
    case False
    then show ?thesis by (cases n) (simp_all add: tokenize_loop.simps [of f p])
  next
    case True
    obtain r p' where nt: "next_token f p toks = (r, p')" by (cases "next_token f p toks")
    from next_token_progress [OF True nt] have pr: "p < p'" "p' \<le> length f" by simp_all
    from True "1.prems" obtain k where n: "n = Suc k" by (cases n) auto
    with "1.prems" pr have k: "length f - p' \<le> k" by simp
    show ?thesis
    proof (cases r)
      case None
      from "1.IH"(1) [OF True nt [symmetric] None k] True nt None n show ?thesis
        by (simp add: tokenize_loop.simps [of f p])
    next
      case (Some t)
      from "1.IH"(2) [OF True nt [symmetric] Some k] True nt Some n show ?thesis
        by (simp add: tokenize_loop.simps [of f p])
    qed
  qed
qed

text \<open>
  Claim C10. Every iteration of the main scanning loop strictly increases the cursor
  and keeps it inside the input, so the loop ends after at most as many iterations as
  characters remain: with that bound the loop returns the tokens.
\<close>

theorem tokenize_loop_terminates:
  "(position < length formula \<longrightarrow>
      position < snd (next_token formula position tokens) \<and>
      snd (next_token formula position tokens) \<le> length formula) \<and>
   tokenize_fuel (length formula - position) formula position tokens =
     Some (tokenize_loop formula position tokens)"
  using next_token_progress [of position formula tokens]
  by (cases "next_token formula position tokens") (simp add: tokenize_fuel_enough)

theorem tokenize_loop_terminates_witness:
  "(0::nat) < length ''a b'' \<and> 0 < snd (next_token ''a b'' 0 []) \<and>
   snd (next_token ''a b'' 0 []) \<le> length ''a b'' \<and>
   tokenize_fuel (length ''a b'' - 0) ''a b'' 0 [] = Some (tokenize_loop ''a b'' 0 [])"
  using tokenize_loop_terminates [of 0 "''a b''" "[]"] by simp

section \<open>Properties of the classifier\<close>

lemma length_classifyTokens: "length (classifyTokens tokens) = length tokens"
  by (induction tokens) simp_all

lemma upper_char_not_lower: "\<not> is_lower (upper_char c)"
  by (cases "is_lower c") (auto simp add: upper_char_def is_lower_def)

lemma upper_char_idem: "upper_char (upper_char c) = upper_char c"
  using upper_char_not_lower [of c] by (simp add: upper_char_def)

lemma toUpperCase_idem: "toUpperCase (toUpperCase v) = toUpperCase v"
  by (simp add: toUpperCase_def upper_char_idem)

lemma classifyTokens_nth:
  "i < length tokens \<Longrightarrow>
     classifyTokens tokens ! i = classify_token (tokens ! i) (drop (Suc i) tokens)"
proof (induction tokens arbitrary: i)
  case Nil
  then show ?case by simp
next
  case (Cons t rest)
  then show ?case by (cases i) simp_all
qed

lemma classify_token_span:
  "tok_start (classify_token t rest) = tok_start t \<and> tok_end (classify_token t rest) = tok_end t"
  by (simp add: classify_token_def Let_def)

lemma classify_token_other: "tok_type t \<noteq> IDENTIFIER \<Longrightarrow> classify_token t rest = t"
  by (simp add: classify_token_def)

lemma classify_token_value:
  "tok_value (classify_token t rest) = tok_value t \<or>
   tok_value (classify_token t rest) = toUpperCase (tok_value t)"
  by (simp add: classify_token_def Let_def)

text \<open>
  Claim C6. The classifier returns a sequence of the same length in which every token
  keeps its start and end offsets, every token of a kind other than identifier is
  returned unchanged, and the value of every token is the original value or its
  upper-cased form, so it differs from the original at most in letter casing.
\<close>

theorem classify_frame:
  "length (classifyTokens tokens) = length tokens \<and>
   (\<forall>i < length tokens.
      tok_start (classifyTokens tokens ! i) = tok_start (tokens ! i) \<and>
      tok_end (classifyTokens tokens ! i) = tok_end (tokens ! i) \<and>
      (tok_type (tokens ! i) \<noteq> IDENTIFIER \<longrightarrow> classifyTokens tokens ! i = tokens ! i) \<and>
      (tok_value (classifyTokens tokens ! i) = tok_value (tokens ! i) \<or>
       tok_value (classifyTokens tokens ! i) = toUpperCase (tok_value (tokens ! i))) \<and>
      toUpperCase (tok_value (classifyTokens tokens ! i)) = toUpperCase (tok_value (tokens ! i)))"
proof (intro conjI allI impI)
  show "length (classifyTokens tokens) = length tokens" by (rule length_classifyTokens)
next
  fix i assume i: "i < length tokens"
  let ?t = "tokens ! i" and ?rest = "drop (Suc i) tokens"
  note n = classifyTokens_nth [OF i]
  show "tok_start (classifyTokens tokens ! i) = tok_start ?t"
    by (simp add: n classify_token_span)
  show "tok_end (classifyTokens tokens ! i) = tok_end ?t"
    by (simp add: n classify_token_span)
  show "tok_value (classifyTokens tokens ! i) = tok_value ?t \<or>
        tok_value (classifyTokens tokens ! i) = toUpperCase (tok_value ?t)"
    using classify_token_value [of ?t ?rest] by (simp add: n)
  show "toUpperCase (tok_value (classifyTokens tokens ! i)) = toUpperCase (tok_value ?t)"
    using classify_token_value [of ?t ?rest] by (auto simp add: n toUpperCase_idem)
  show "classifyTokens tokens ! i = ?t" if "tok_type ?t \<noteq> IDENTIFIER"
    using that by (simp add: n classify_token_other)
qed

theorem classify_frame_witness:
  "(0::nat) < length [\<lparr>tok_type = IDENTIFIER, tok_value = ''if'', tok_start = 0, tok_end = 2\<rparr>] \<and>
   classifyTokens [\<lparr>tok_type = IDENTIFIER, tok_value = ''if'', tok_start = 0, tok_end = 2\<rparr>] ! 0 =
     \<lparr>tok_type = FUNCTION, tok_value = ''IF'', tok_start = 0, tok_end = 2\<rparr> \<and>
   tok_start (classifyTokens
     [\<lparr>tok_type = IDENTIFIER, tok_value = ''if'', tok_start = 0, tok_end = 2\<rparr>] ! 0) = 0 \<and>
   toUpperCase (tok_value (classifyTokens
     [\<lparr>tok_type = IDENTIFIER, tok_value = ''if'', tok_start = 0, tok_end = 2\<rparr>] ! 0)) =
     toUpperCase ''if''"
proof -
  let ?ts = "[\<lparr>tok_type = IDENTIFIER, tok_value = ''if'', tok_start = 0, tok_end = 2\<rparr>]"
  have v: "classifyTokens ?ts ! 0 = \<lparr>tok_type = FUNCTION, tok_value = ''IF'', tok_start = 0, tok_end = 2\<rparr>"
    by code_simp
  have l: "(0::nat) < length ?ts" by simp
  from classify_frame [of ?ts] l
  have "tok_start (classifyTokens ?ts ! 0) = tok_start (?ts ! 0) \<and>
        toUpperCase (tok_value (classifyTokens ?ts ! 0)) = toUpperCase (tok_value (?ts ! 0))"
    by blast
  with v l show ?thesis by simp
qed

lemma classify_token_type:
  "tok_type (classify_token t rest) = WHITESPACE \<longleftrightarrow> tok_type t = WHITESPACE"
  "tok_type (classify_token t rest) = PARENTHESIS \<longleftrightarrow> tok_type t = PARENTHESIS"
  by (auto simp add: classify_token_def Let_def)

lemma followed_by_open_paren_classify:
  "followed_by_open_paren (classifyTokens tokens) = followed_by_open_paren tokens"
proof (induction tokens)
  case Nil
  show ?case by simp
next
  case (Cons t rest)
  show ?case
  proof (cases "tok_type t = IDENTIFIER")
    case True
    with Cons show ?thesis by (simp add: classify_token_type)
  next
    case False
    with Cons show ?thesis by (simp add: classify_token_other)
  qed
qed

lemma classify_token_idem:
  assumes "followed_by_open_paren rest' = followed_by_open_paren rest"
  shows "classify_token (classify_token t rest) rest' = classify_token t rest"
proof (cases "tok_type (classify_token t rest) = IDENTIFIER")
  case False
  then show ?thesis by (rule classify_token_other)
next
  case True
  then have "classify_token t rest = t"
    by (auto simp add: classify_token_def Let_def split: if_splits)
  with True assms show ?thesis
    by (auto simp add: classify_token_def Let_def split: if_splits)
qed

text \<open>
  Claim C7. The classifier is idempotent: classifying a classified sequence changes
  nothing.
\<close>

theorem classify_idempotent:
  "classifyTokens (classifyTokens tokens) = classifyTokens tokens"
  by (induction tokens) (simp_all add: classify_token_idem followed_by_open_paren_classify)

section \<open>Unknown functions\<close>

text \<open>
  The condition of the specification, stated on the token sequence and an index: the
  token is an identifier, the next token after it that is no whitespace is an opening
  parenthesis, its upper-cased value is not in the function table, and its first
  character is an upper-case letter.
\<close>

definition next_non_whitespace :: "token list \<Rightarrow> token option" where
  "next_non_whitespace tokens = find (\<lambda>t. tok_type t \<noteq> WHITESPACE) tokens"

definition spec_invalid_function :: "token list \<Rightarrow> nat \<Rightarrow> bool" where
  "spec_invalid_function tokens i =
     (tok_type (tokens ! i) = IDENTIFIER \<and>
      (case next_non_whitespace (drop (Suc i) tokens) of
         None \<Rightarrow> False
       | Some t \<Rightarrow> tok_type t = PARENTHESIS \<and> tok_value t = ''('') \<and>
      toUpperCase (tok_value (tokens ! i)) \<notin> set allFunctions \<and>
      starts_upper (tok_value (tokens ! i)))"

lemma followed_by_open_paren_next:
  "followed_by_open_paren tokens =
     (case next_non_whitespace tokens of
        None \<Rightarrow> False
      | Some t \<Rightarrow> tok_type t = PARENTHESIS \<and> tok_value t = ''('')"
  by (induction tokens) (simp_all add: next_non_whitespace_def)

definition function_errors :: "formula_error list \<Rightarrow> formula_error list" where
  "function_errors errs = filter (\<lambda>e. err_type e = Function) errs"

lemma function_errors_parenthesis:
  "function_errors (errors (check_parenthesis t st)) = function_errors (errors st)"
  by (simp add: function_errors_def check_parenthesis_def Let_def)

lemma function_errors_bracket:
  "function_errors (errors (check_bracket t st)) = function_errors (errors st)"
  by (simp add: function_errors_def check_bracket_def Let_def)

lemma function_errors_function:
  "function_errors (errors (check_function t rest st)) =
     function_errors (errors st) @
     (if spec_invalid_function (t # rest) 0 then [invalid_function_error t] else [])"
proof (cases "spec_invalid_function (t # rest) 0")
  case True
  then have "errors (check_function t rest st) = errors st @ [invalid_function_error t]"
    by (simp add: check_function_def spec_invalid_function_def followed_by_open_paren_next)
  with True show ?thesis by (simp add: function_errors_def invalid_function_error_def)
next
  case False
  then have "check_function t rest st = st"
    by (auto simp add: check_function_def spec_invalid_function_def followed_by_open_paren_next)
  with False show ?thesis by simp
qed

lemma function_errors_step:
  "function_errors (errors (check_function t rest (check_bracket t (check_parenthesis t st)))) =
     function_errors (errors st) @
     (if spec_invalid_function (t # rest) 0 then [invalid_function_error t] else [])"
  by (simp only: function_errors_function function_errors_bracket function_errors_parenthesis)

lemma spec_invalid_function_Suc:
  "spec_invalid_function (t # rest) (Suc i) = spec_invalid_function rest i"
  by (simp add: spec_invalid_function_def)

lemma function_errors_loop:
  "function_errors (errors (detect_loop tokens st)) =
     function_errors (errors st) @
     map (\<lambda>i. invalid_function_error (tokens ! i))
       (filter (spec_invalid_function tokens) [0..<length tokens])"
proof (induction tokens arbitrary: st)
  case Nil
  show ?case by simp
next
  case (Cons t rest)
  have idx: "[0..<length (t # rest)] = 0 # map Suc [0..<length rest]"
    by (simp add: upt_conv_Cons map_Suc_upt del: upt_Suc)
  have shift: "map (\<lambda>i. invalid_function_error ((t # rest) ! i))
                 (filter (spec_invalid_function (t # rest)) (map Suc [0..<length rest])) =
               map (\<lambda>i. invalid_function_error (rest ! i))
                 (filter (spec_invalid_function rest) [0..<length rest])"
    by (simp add: filter_map comp_def spec_invalid_function_Suc)
  show ?case
    unfolding detect_loop.simps Cons.IH function_errors_step idx
    using shift by simp
qed

lemma function_errors_unmatched:
  "function_errors (unmatched_openings s st) = function_errors (errors st)"
  by (simp add: function_errors_def unmatched_openings_def Let_def)

lemma detect_unknown_function_example:
  "detectFormulaErrors (JSString ''FOO(1)'') =
     [\<lparr>err_position = 0, err_message = ''Invalid function: FOO'', err_type = Function\<rparr>]"
  by code_simp

text \<open>
  Claim C5. The function-kind errors of the detector are exactly the errors
  \<open>Invalid function: <value>\<close> of the identifier tokens, in order, for which the next
  token that is no whitespace is an opening parenthesis, the upper-cased value is not
  in the function table and the first character is upper-case. For \<open>FOO(1)\<close> the detector
  reports exactly one error, of kind function, with message \<open>Invalid function: FOO\<close>; and
  every function-kind error belongs to an identifier whose first character is
  upper-case, so no token whose first character is lower-case is ever flagged.
\<close>

theorem detect_invalid_functions:
  "function_errors (detectFormulaErrors formula) =
     map (\<lambda>i. invalid_function_error (tokenizeFormula formula ! i))
       (filter (spec_invalid_function (tokenizeFormula formula))
          [0..<length (tokenizeFormula formula)]) \<and>
   detectFormulaErrors (JSString ''FOO(1)'') =
     [\<lparr>err_position = 0, err_message = ''Invalid function: FOO'', err_type = Function\<rparr>] \<and>
   (\<forall>e \<in> set (detectFormulaErrors formula). err_type e = Function \<longrightarrow>
      (\<exists>i < length (tokenizeFormula formula).
         e = invalid_function_error (tokenizeFormula formula ! i) \<and>
         tok_type (tokenizeFormula formula ! i) = IDENTIFIER \<and>
         starts_upper (tok_value (tokenizeFormula formula ! i)) \<and>
         \<not> starts_lower (tok_value (tokenizeFormula formula ! i)))) \<and>
   (\<forall>j < length (tokenizeFormula formula).
      starts_lower (tok_value (tokenizeFormula formula ! j)) \<longrightarrow>
      invalid_function_error (tokenizeFormula formula ! j) \<notin> set (detectFormulaErrors formula))"
proof -
  let ?ts = "tokenizeFormula formula"
  let ?flagged = "filter (spec_invalid_function ?ts) [0..<length ?ts]"
  have eq: "function_errors (detectFormulaErrors formula) =
              map (\<lambda>i. invalid_function_error (?ts ! i)) ?flagged"
  proof (cases "\<exists>s. formula = JSString s \<and> s \<noteq> []")
    case True
    then obtain s where s: "formula = JSString s" "s \<noteq> []" by blast
    then have "detectFormulaErrors formula =
        unmatched_openings s (detect_loop ?ts \<lparr>openParens = 0, openBrackets = 0, errors = []\<rparr>)"
      by (simp add: detectFormulaErrors_def)
    then show ?thesis
      by (simp add: function_errors_unmatched function_errors_loop) (simp add: function_errors_def)
  next
    case False
    then have "detectFormulaErrors formula = []" "?ts = []"
      by (cases formula; simp add: detectFormulaErrors_def tokenizeFormula_def)+
    then show ?thesis by (simp add: function_errors_def)
  qed
  have low: "\<exists>i < length ?ts. e = invalid_function_error (?ts ! i) \<and>
               tok_type (?ts ! i) = IDENTIFIER \<and> starts_upper (tok_value (?ts ! i)) \<and>
               \<not> starts_lower (tok_value (?ts ! i))"
    if e: "e \<in> set (detectFormulaErrors formula)" "err_type e = Function" for e
  proof -
    from e have "e \<in> set (function_errors (detectFormulaErrors formula))"
      by (simp add: function_errors_def)
    with eq obtain i where i: "i \<in> set ?flagged" "e = invalid_function_error (?ts ! i)" by auto
    then have f: "i < length ?ts" "spec_invalid_function ?ts i" by simp_all
    from f(2) have u: "tok_type (?ts ! i) = IDENTIFIER" "starts_upper (tok_value (?ts ! i))"
      by (simp_all add: spec_invalid_function_def)
    from u(2) have "\<not> starts_lower (tok_value (?ts ! i))"
      by (auto simp add: starts_upper_def starts_lower_def is_upper_def is_lower_def
            split: list.splits)
    with f(1) i(2) u show ?thesis by blast
  qed
  have nolow: "invalid_function_error (?ts ! j) \<notin> set (detectFormulaErrors formula)"
    if j: "starts_lower (tok_value (?ts ! j))" for j
  proof
    assume m: "invalid_function_error (?ts ! j) \<in> set (detectFormulaErrors formula)"
    have "err_type (invalid_function_error (?ts ! j)) = Function"
      by (simp add: invalid_function_error_def)
    from low [OF m this] obtain i
      where "invalid_function_error (?ts ! j) = invalid_function_error (?ts ! i)"
        and "\<not> starts_lower (tok_value (?ts ! i))" by blast
    then show False using j by (simp add: invalid_function_error_def)
  qed
  from eq low nolow detect_unknown_function_example show ?thesis by blast
qed

theorem detect_invalid_functions_witness:
  "\<lparr>err_position = 0, err_message = ''Invalid function: FOO'', err_type = Function\<rparr>
     \<in> set (detectFormulaErrors (JSString ''FOO(1)'')) \<and>
   (\<exists>i < length (tokenizeFormula (JSString ''FOO(1)'')).
      \<lparr>err_position = 0, err_message = ''Invalid function: FOO'', err_type = Function\<rparr> =
        invalid_function_error (tokenizeFormula (JSString ''FOO(1)'') ! i) \<and>
      starts_upper (tok_value (tokenizeFormula (JSString ''FOO(1)'') ! i)))"
proof -
  let ?e = "\<lparr>err_position = 0, err_message = ''Invalid function: FOO'', err_type = Function\<rparr>"
  from detect_invalid_functions [of "JSString ''FOO(1)''"]
  have ex: "detectFormulaErrors (JSString ''FOO(1)'') = [?e]"
    and all: "\<forall>e \<in> set (detectFormulaErrors (JSString ''FOO(1)'')). err_type e = Function \<longrightarrow>
      (\<exists>i < length (tokenizeFormula (JSString ''FOO(1)'')).
         e = invalid_function_error (tokenizeFormula (JSString ''FOO(1)'') ! i) \<and>
         tok_type (tokenizeFormula (JSString ''FOO(1)'') ! i) = IDENTIFIER \<and>
         starts_upper (tok_value (tokenizeFormula (JSString ''FOO(1)'') ! i)) \<and>
         \<not> starts_lower (tok_value (tokenizeFormula (JSString ''FOO(1)'') ! i)))"
    by blast+
  from ex have m: "?e \<in> set (detectFormulaErrors (JSString ''FOO(1)''))" by simp
  from all m have "\<exists>i < length (tokenizeFormula (JSString ''FOO(1)'')).
         ?e = invalid_function_error (tokenizeFormula (JSString ''FOO(1)'') ! i) \<and>
         starts_upper (tok_value (tokenizeFormula (JSString ''FOO(1)'') ! i))"
    by fastforce
  with m show ?thesis by blast
qed

section \<open>The spans of the tokens\<close>
















section \<open>Repeated pretty-printing\<close>

subsection \<open>Formulas without operators and delimiters\<close>






































































subsection \<open>Examples\<close>












section \<open>Arguments that are no arrays, and failing operations\<close>

text \<open>
  The only failure that an operation of the five functions can raise is the
  \<open>TypeError\<close> of reading a property of \<open>null\<close> or \<open>undefined\<close>. The functions
  \<open>classifyTokens\<close> and \<open>markErrorTokens\<close> call \<open>tokens.map\<close> and \<open>errors.forEach\<close>
  on their arguments without a test, so an argument is modelled as an array or as one
  of the two values without properties.
\<close>

datatype js_error = TypeError

datatype 'a js_argument = ArrayArg "'a list" | NullArg | UndefinedArg

text \<open>
  \<open>tokens[i].type\<close> and \<open>tokens[i].value\<close>: outside the array \<open>tokens[i]\<close> is
  \<open>undefined\<close>, and reading its property fails.
\<close>

definition token_at :: "token list \<Rightarrow> nat \<Rightarrow> js_error + token" where
  "token_at tokens i = (if i < length tokens then Inr (tokens ! i) else Inl TypeError)"

text \<open>
  The look-ahead loop \<open>for (let i = index + 1; i < tokens.length; i++)\<close> of
  \<open>classifyTokens\<close> and \<open>detectFormulaErrors\<close>, with its accesses by index.
\<close>

function look_ahead :: "token list \<Rightarrow> nat \<Rightarrow> js_error + bool" where
  "look_ahead tokens i =
     (if i < length tokens
      then (case token_at tokens i of
              Inl e \<Rightarrow> Inl e
            | Inr t \<Rightarrow>
                if tok_type t = WHITESPACE then look_ahead tokens (i + 1)
                else Inr (tok_type t = PARENTHESIS \<and> tok_value t = ''(''))
      else Inr False)"
  by pat_completeness auto
termination
  by (relation "measure (\<lambda>(tokens, i). length tokens - i)") auto

declare look_ahead.simps [simp del]

text \<open>The callback of \<open>tokens.map\<close> in \<open>classifyTokens\<close>, at index \<open>index\<close>.\<close>

definition field_or_same :: "token \<Rightarrow> token" where
  "field_or_same token =
     (if CHR ''_'' \<in> set (tok_value token) \<and> looks_like_field_name (tok_value token)
      then token\<lparr>tok_type := FORMULA_FIELD\<rparr>
      else token)"

definition classify_at :: "token list \<Rightarrow> nat \<Rightarrow> js_error + token" where
  "classify_at tokens index =
     (case token_at tokens index of
        Inl e \<Rightarrow> Inl e
      | Inr token \<Rightarrow>
          if tok_type token = IDENTIFIER
          then (let upperValue = toUpperCase (tok_value token)
                in if upperValue \<in> set allFunctions
                   then Inr (token\<lparr>tok_type := FUNCTION, tok_value := upperValue\<rparr>)
                   else if upperValue \<in> set SF_constants
                   then Inr (token\<lparr>tok_type := CONSTANT, tok_value := upperValue\<rparr>)
                   else if starts_lower (tok_value token)
                   then (case look_ahead tokens (index + 1) of
                           Inl e \<Rightarrow> Inl e
                         | Inr hasParenthesis \<Rightarrow>
                             if hasParenthesis then Inr (token\<lparr>tok_type := CUSTOM_FUNCTION\<rparr>)
                             else Inr (field_or_same token))
                   else Inr (field_or_same token))
          else Inr token)"

text \<open>\<open>Array.prototype.map\<close> with a callback that may fail: the first failure ends the call.\<close>

fun map_indices :: "(nat \<Rightarrow> js_error + 'a) \<Rightarrow> nat list \<Rightarrow> js_error + 'a list" where
  "map_indices f [] = Inr []"
| "map_indices f (i # rest) =
     (case f i of
        Inl e \<Rightarrow> Inl e
      | Inr x \<Rightarrow> (case map_indices f rest of Inl e \<Rightarrow> Inl e | Inr xs \<Rightarrow> Inr (x # xs)))"

definition classifyTokens_call :: "token js_argument \<Rightarrow> js_error + token list" where
  "classifyTokens_call tokens =
     (case tokens of
        ArrayArg ts \<Rightarrow> map_indices (classify_at ts) [0..<length ts]
      | _ \<Rightarrow> Inl TypeError)"

text \<open>
  \<open>markErrorTokens\<close>: first \<open>errors.forEach\<close>, then \<open>tokens.map\<close>; the callbacks read
  \<open>error.position\<close>, \<open>token.start\<close> and \<open>token.end\<close> of the elements.
\<close>

definition markErrorTokens_call ::
  "token js_argument \<Rightarrow> formula_error js_argument \<Rightarrow> js_error + token list" where
  "markErrorTokens_call tokens errs =
     (case errs of
        ArrayArg es \<Rightarrow>
          (case tokens of
             ArrayArg ts \<Rightarrow> Inr (markErrorTokens ts es)
           | _ \<Rightarrow> Inl TypeError)
      | _ \<Rightarrow> Inl TypeError)"

text \<open>The loop of \<open>detectFormulaErrors\<close> with its accesses by index.\<close>

definition check_function_at ::
  "token list \<Rightarrow> nat \<Rightarrow> token \<Rightarrow> detect_state \<Rightarrow> js_error + detect_state" where
  "check_function_at tokens i token st =
     (if tok_type token = IDENTIFIER
      then (let upperValue = toUpperCase (tok_value token)
            in case look_ahead tokens (i + 1) of
                 Inl e \<Rightarrow> Inl e
               | Inr isFunctionCall \<Rightarrow>
                   if isFunctionCall \<and> upperValue \<notin> set allFunctions \<and>
                      starts_upper (tok_value token)
                   then Inr (st\<lparr>errors := errors st @ [invalid_function_error token]\<rparr>)
                   else Inr st)
      else Inr st)"

function detect_from :: "token list \<Rightarrow> nat \<Rightarrow> detect_state \<Rightarrow> js_error + detect_state" where
  "detect_from tokens i st =
     (if i < length tokens
      then (case token_at tokens i of
              Inl e \<Rightarrow> Inl e
            | Inr token \<Rightarrow>
                (case check_function_at tokens i token
                        (check_bracket token (check_parenthesis token st)) of
                   Inl e \<Rightarrow> Inl e
                 | Inr st' \<Rightarrow> detect_from tokens (i + 1) st'))
      else Inr st)"
  by pat_completeness auto
termination
  by (relation "measure (\<lambda>(tokens, i, st). length tokens - i)") auto

declare detect_from.simps [simp del]

definition detectFormulaErrors_call :: "js_value \<Rightarrow> js_error + formula_error list" where
  "detectFormulaErrors_call formula =
     (case formula of
        JSString s \<Rightarrow>
          if s = [] then Inr []
          else (case detect_from (tokenizeFormula formula) 0
                       \<lparr>openParens = 0, openBrackets = 0, errors = []\<rparr> of
                  Inl e \<Rightarrow> Inl e
                | Inr st \<Rightarrow> Inr (unmatched_openings s st))
      | _ \<Rightarrow> Inr [])"

text \<open>Inside an array no access by index fails, and the loops agree with the recursive ones.\<close>

lemma look_ahead_drop:
  "look_ahead tokens i = Inr (followed_by_open_paren (drop i tokens))"
proof (induction tokens i rule: look_ahead.induct)
  case (1 tokens i)
  show ?case
  proof (cases "i < length tokens")
    case True
    then have d: "drop i tokens = tokens ! i # drop (Suc i) tokens"
      by (simp add: Cons_nth_drop_Suc)
    show ?thesis
    proof (cases "tok_type (tokens ! i) = WHITESPACE")
      case True
      with \<open>i < length tokens\<close> 1 [of "tokens ! i"] d show ?thesis
        by (simp add: look_ahead.simps [of tokens i] token_at_def)
    next
      case False
      with \<open>i < length tokens\<close> d show ?thesis
        by (simp add: look_ahead.simps [of tokens i] token_at_def)
    qed
  next
    case False
    then show ?thesis by (simp add: look_ahead.simps [of tokens i])
  qed
qed

lemma classify_at_token:
  "i < length tokens \<Longrightarrow>
     classify_at tokens i = Inr (classify_token (tokens ! i) (drop (Suc i) tokens))"
  by (simp add: classify_at_def classify_token_def token_at_def look_ahead_drop
      field_or_same_def Let_def)

lemma map_indices_total:
  "(\<And>i. i \<in> set ixs \<Longrightarrow> f i = Inr (g i)) \<Longrightarrow> map_indices f ixs = Inr (map g ixs)"
  by (induction ixs) simp_all

lemma classifyTokens_by_index:
  "classifyTokens tokens =
     map (\<lambda>i. classify_token (tokens ! i) (drop (Suc i) tokens)) [0..<length tokens]"
  by (rule nth_equalityI) (simp_all add: length_classifyTokens classifyTokens_nth)

lemma classifyTokens_call_array:
  "classifyTokens_call (ArrayArg tokens) = Inr (classifyTokens tokens)"
  unfolding classifyTokens_call_def js_argument.case classifyTokens_by_index [of tokens]
  by (rule map_indices_total) (simp add: classify_at_token)

lemma check_function_at_rest:
  "check_function_at tokens i token st =
     Inr (check_function token (drop (Suc i) tokens) st)"
  by (simp add: check_function_at_def check_function_def look_ahead_drop Let_def)

lemma detect_from_drop:
  "detect_from tokens i st = Inr (detect_loop (drop i tokens) st)"
proof (induction tokens i st rule: detect_from.induct)
  case (1 tokens i st)
  show ?case
  proof (cases "i < length tokens")
    case True
    then have d: "drop i tokens = tokens ! i # drop (Suc i) tokens"
      by (simp add: Cons_nth_drop_Suc)
    from True 1 [OF True, of "tokens ! i"] d show ?thesis
      by (simp add: detect_from.simps [of tokens i st] token_at_def check_function_at_rest)
  next
    case False
    then show ?thesis by (simp add: detect_from.simps [of tokens i st])
  qed
qed

lemma detectFormulaErrors_call_value:
  "detectFormulaErrors_call formula = Inr (detectFormulaErrors formula)"
  by (cases formula)
     (simp_all add: detectFormulaErrors_call_def detectFormulaErrors_def detect_from_drop)

text \<open>
  Every keyword of the pretty-printer is a non-empty word of letters and underscores,
  so that \<open>new RegExp("\\b" + word + "\\b", "gi")\<close> is a regular expression, the one
  that matches the word literally.
\<close>

lemma keywords_are_words:
  "list_all (\<lambda>w. w \<noteq> [] \<and> list_all is_ident_char w) (prettify_functions @ SF_constants)"
  by (simp add: prettify_functions_def SF_logical_def SF_text_def SF_math_def
      SF_datetime_def SF_conversion_def SF_constants_def is_ident_char_ascii)
text \<open>
  The claim that no function ever fails, for any input, does not hold:
  \<open>classifyTokens(null)\<close> fails at \<open>tokens.map\<close>, and \<open>markErrorTokens([], null)\<close>
  at \<open>errors.forEach\<close>.
\<close>

theorem classify_null_raises:
  "classifyTokens_call NullArg = Inl TypeError \<and>
   markErrorTokens_call (ArrayArg []) NullArg = Inl TypeError"
  by (simp add: classifyTokens_call_def markErrorTokens_call_def)

text \<open>
  Claim C9. For an input that is not a string, or is the empty string, the tokenizer
  and the error detector return the empty sequence and the pretty-printer returns its
  input. The tokenizer, the error detector and the pretty-printer return a value for
  every input: the tokenizer loop returns within \<open>length\<close> iterations on every string,
  no access by index of the error detector leaves the array of tokens, and every
  keyword of the pretty-printer gives a regular expression. The classifier and the
  error marker return a value for all arrays of tokens and of errors, and they fail
  with a \<open>TypeError\<close> exactly when an argument is \<open>null\<close> or \<open>undefined\<close>.
\<close>

theorem guards_and_failures:
  "((\<forall>s. formula \<noteq> JSString s) \<or> formula = JSString [] \<longrightarrow>
      tokenizeFormula formula = [] \<and> detectFormulaErrors formula = [] \<and>
      prettifySalesforceFormula formula = formula) \<and>
   tokenize_fuel (length input) input 0 [] = Some (tokenizeFormula (JSString input)) \<and>
   detectFormulaErrors_call formula = Inr (detectFormulaErrors formula) \<and>
   list_all (\<lambda>w. w \<noteq> [] \<and> list_all is_ident_char w) (prettify_functions @ SF_constants) \<and>
   classifyTokens_call (ArrayArg tokens) = Inr (classifyTokens tokens) \<and>
   markErrorTokens_call (ArrayArg tokens) (ArrayArg errs) = Inr (markErrorTokens tokens errs) \<and>
   (classifyTokens_call tokens_arg = Inl TypeError \<longleftrightarrow> (\<forall>ts. tokens_arg \<noteq> ArrayArg ts)) \<and>
   (markErrorTokens_call tokens_arg errs_arg = Inl TypeError \<longleftrightarrow>
      (\<forall>ts. tokens_arg \<noteq> ArrayArg ts) \<or> (\<forall>es. errs_arg \<noteq> ArrayArg es))"
proof -
  have "tokenize_fuel (length input) input 0 [] = Some (tokenizeFormula (JSString input))"
    using tokenize_fuel_enough [of input 0 "length input" "[]"]
    by (cases "input = []") (simp_all add: tokenizeFormula_def)
  moreover have "(\<forall>s. formula \<noteq> JSString s) \<or> formula = JSString [] \<longrightarrow>
      tokenizeFormula formula = [] \<and> detectFormulaErrors formula = [] \<and>
      prettifySalesforceFormula formula = formula"
    by (cases formula)
       (simp_all add: tokenizeFormula_def detectFormulaErrors_def prettifySalesforceFormula_def)
  moreover have "classifyTokens_call tokens_arg = Inl TypeError \<longleftrightarrow>
      (\<forall>ts. tokens_arg \<noteq> ArrayArg ts)"
    by (cases tokens_arg) (simp_all add: classifyTokens_call_array, simp_all add: classifyTokens_call_def)
  moreover have "markErrorTokens_call tokens_arg errs_arg = Inl TypeError \<longleftrightarrow>
      (\<forall>ts. tokens_arg \<noteq> ArrayArg ts) \<or> (\<forall>es. errs_arg \<noteq> ArrayArg es)"
    by (cases tokens_arg; cases errs_arg) (simp_all add: markErrorTokens_call_def)
  moreover have "markErrorTokens_call (ArrayArg tokens) (ArrayArg errs) =
      Inr (markErrorTokens tokens errs)"
    by (simp add: markErrorTokens_call_def)
  ultimately show ?thesis
    using detectFormulaErrors_call_value [of formula] keywords_are_words
      classifyTokens_call_array [of tokens]
    by blast
qed

theorem guards_and_failures_witness:
  "((\<forall>s. JSNull \<noteq> JSString s) \<or> JSNull = JSString []) \<and>
   tokenizeFormula JSNull = [] \<and> detectFormulaErrors JSNull = [] \<and>
   prettifySalesforceFormula JSNull = JSNull \<and>
   ((\<forall>s. JSString [] \<noteq> JSString s) \<or> JSString [] = JSString []) \<and>
   tokenizeFormula (JSString []) = [] \<and> detectFormulaErrors (JSString []) = [] \<and>
   prettifySalesforceFormula (JSString []) = JSString [] \<and>
   (\<forall>ts. UndefinedArg \<noteq> ArrayArg ts) \<and>
   classifyTokens_call (UndefinedArg :: token js_argument) = Inl TypeError \<and>
   markErrorTokens_call UndefinedArg (ArrayArg []) = Inl TypeError"
  using guards_and_failures [of JSNull "[]" "[]" "[]" UndefinedArg "ArrayArg []"]
        guards_and_failures [of "JSString []" "[]" "[]" "[]" UndefinedArg "ArrayArg []"]
  by simp

end
